theory Spec2Isabelle
  imports Main
begin

section \<open>Authentication and session core of the task manager\<close>

text \<open>
  The development embeds the Express/Mongoose authentication core: the User model
  (backend/models/User.js), the Session model (backend/models/Session.js), the request
  gate and token helpers (backend/middleware/auth.js) and the route handlers
  (backend/routes/auth.js).

  Modelling conventions.
  \<^item> Time is the integer number of milliseconds since the epoch that \<^verbatim>\<open>Date.now()\<close>
    returns. A request is handled at one instant \<open>now\<close>: every clock read of one handler
    run sees the same value, and asynchronous saves complete in program order.
  \<^item> The MongoDB collections are lists of documents in natural order. A query is a
    \<open>find\<close>/\<open>filter\<close> over the list, \<^verbatim>\<open>updateMany\<close> a \<open>map\<close>. Saving a loaded document
    writes the paths the handler changed into the stored document with the same key
    (the user's \<^verbatim>\<open>_id\<close>, the session's unique \<^verbatim>\<open>sessionId\<close>).
  \<^item> \<^verbatim>\<open>crypto.randomUUID()\<close> and the new ObjectId are inputs of the handler.
  \<^item> The store itself does not fail. Of the exceptions the handlers catch, the model has
    the duplicate-key error of a unique index (\<^verbatim>\<open>sessionId\<close>, \<^verbatim>\<open>_id\<close>) and the missing owner
    of a populated session; lost connections are not modelled.
  \<^item> Library primitives are idealised: a JSON web token is the data it carries together
    with the secret it was signed with, SHA-256 and bcrypt are collision free.
  \<^item> The express-validator chains, the rate limiter and the Mongoose field validators run
    before the handlers and are not part of the model: request fields arrive validated
    and normalised.
  \<^item> Of the two stamps of \<^verbatim>\<open>timestamps: true\<close> the session keeps \<open>createdAt\<close>, which
    the risk score reads; \<open>updatedAt\<close> is read by \<^verbatim>\<open>cleanupExpired\<close> only and is left out,
    as are both stamps of the user, which no code of the core reads.
\<close>

subsection \<open>JSON values and responses\<close>

type_synonym time = int

record access_claims =
  a_userId :: nat
  a_sessionId :: string
  a_username :: string
  a_email :: string
  a_iat :: int
  a_exp :: int

record refresh_claims =
  r_userId :: nat
  r_sessionId :: string
  r_tokenFamily :: string
  r_type :: string
  r_iat :: int
  r_exp :: int

text \<open>
  A token string a client can present: one signed with \<^verbatim>\<open>JWT_SECRET\<close>, one signed with
  \<^verbatim>\<open>JWT_REFRESH_SECRET\<close>, or any other text (malformed, or signed with another key).
  The claims \<^verbatim>\<open>iss\<close> and \<^verbatim>\<open>aud\<close> are the same constants in every token; the claim records
  do not repeat them.
\<close>

datatype token = AccessJwt access_claims | RefreshJwt refresh_claims | OtherText string

datatype json =
    JNull
  | JBool bool
  | JNum int
  | JStr string
  | JDate time
  | JToken token
  | JArr "json list"
  | JObj "member list"
and member = Member string json

record response =
  status :: nat
  body :: json

text \<open>The member names of the claims a token carries in its payload.\<close>

fun claim_names :: "token \<Rightarrow> string list" where
  "claim_names (AccessJwt c) =
     [''userId'', ''sessionId'', ''username'', ''email'', ''iat'', ''exp'', ''aud'', ''iss'']"
| "claim_names (RefreshJwt c) =
     [''userId'', ''sessionId'', ''tokenFamily'', ''type'', ''iat'', ''exp'', ''aud'', ''iss'']"
| "claim_names (OtherText s) = []"

text \<open>\<open>mentions k j\<close>: some object inside \<open>j\<close>, at any depth, has a member named \<open>k\<close>.\<close>

primrec mentions :: "string \<Rightarrow> json \<Rightarrow> bool"
  and mentions_list :: "string \<Rightarrow> json list \<Rightarrow> bool"
  and mentions_members :: "string \<Rightarrow> member list \<Rightarrow> bool"
  and mentions_member :: "string \<Rightarrow> member \<Rightarrow> bool" where
  "mentions k JNull = False"
| "mentions k (JBool b) = False"
| "mentions k (JNum n) = False"
| "mentions k (JStr s) = False"
| "mentions k (JDate t) = False"
| "mentions k (JToken t) = (k \<in> set (claim_names t))"
| "mentions k (JArr js) = mentions_list k js"
| "mentions k (JObj ms) = mentions_members k ms"
| "mentions_list k [] = False"
| "mentions_list k (j # js) = (mentions k j \<or> mentions_list k js)"
| "mentions_members k [] = False"
| "mentions_members k (m # ms) = (mentions_member k m \<or> mentions_members k ms)"
| "mentions_member k (Member n j) = (n = k \<or> mentions k j)"

fun member_name :: "member \<Rightarrow> string" where
  "member_name (Member n j) = n"

fun member_value :: "member \<Rightarrow> json" where
  "member_value (Member n j) = j"

text \<open>\<^verbatim>\<open>obj[k]\<close> and \<^verbatim>\<open>delete obj[k]\<close> on the members of an object.\<close>

fun get_member :: "string \<Rightarrow> member list \<Rightarrow> json option" where
  "get_member k [] = None"
| "get_member k (m # ms) = (if member_name m = k then Some (member_value m) else get_member k ms)"

definition delete_member :: "string \<Rightarrow> member list \<Rightarrow> member list" where
  "delete_member k ms = filter (\<lambda>m. member_name m \<noteq> k) ms"

definition code :: "response \<Rightarrow> json option" where
  "code r = (case body r of JObj ms \<Rightarrow> get_member ''code'' ms | _ \<Rightarrow> None)"

text \<open>The error body every failing branch sends: \<^verbatim>\<open>{ success: false, error, code }\<close>.\<close>

definition failure :: "nat \<Rightarrow> string \<Rightarrow> string \<Rightarrow> response" where
  "failure st msg c =
     \<lparr>status = st,
      body = JObj [Member ''success'' (JBool False), Member ''error'' (JStr msg),
                   Member ''code'' (JStr c)]\<rparr>"

definition success_message :: "string \<Rightarrow> response" where
  "success_message msg =
     \<lparr>status = 200, body = JObj [Member ''success'' (JBool True), Member ''message'' (JStr msg)]\<rparr>"

subsection \<open>Environment\<close>

text \<open>
  \<^verbatim>\<open>process.env\<close>. A numeric variable holds what \<^verbatim>\<open>parseInt\<close> reads from it (\<open>None\<close> when
  it is unset or not a number); a token lifetime holds the configured text and the number
  of seconds the signing library reads it as.
\<close>

record timespan =
  span_text :: string
  span_seconds :: int

record env =
  MAX_LOGIN_ATTEMPTS :: "int option"
  ACCOUNT_LOCK_TIME :: "int option"
  SESSION_MAX_CONCURRENT :: "int option"
  JWT_EXPIRES_IN :: "timespan option"
  JWT_REFRESH_EXPIRES_IN :: "timespan option"

text \<open>\<^verbatim>\<open>parseInt(v) || d\<close>: the default replaces an unset, unparsable or zero value.\<close>

definition parseInt_or :: "int option \<Rightarrow> int \<Rightarrow> int" where
  "parseInt_or v d = (case v of None \<Rightarrow> d | Some n \<Rightarrow> if n = 0 then d else n)"

definition access_lifetime :: "env \<Rightarrow> timespan" where
  "access_lifetime e =
     (case JWT_EXPIRES_IN e of None \<Rightarrow> \<lparr>span_text = ''30m'', span_seconds = 30 * 60\<rparr> | Some t \<Rightarrow> t)"

definition refresh_lifetime :: "env \<Rightarrow> timespan" where
  "refresh_lifetime e =
     (case JWT_REFRESH_EXPIRES_IN e of
        None \<Rightarrow> \<lparr>span_text = ''7d'', span_seconds = 7 * 24 * 60 * 60\<rparr> | Some t \<Rightarrow> t)"

text \<open>\<^verbatim>\<open>a || d\<close> on an optional string: an absent or empty string is falsy.\<close>

definition str_or :: "string option \<Rightarrow> string \<Rightarrow> string" where
  "str_or a d = (case a of None \<Rightarrow> d | Some s \<Rightarrow> if s = [] then d else s)"

subsection \<open>User model (backend/models/User.js)\<close>

text \<open>
  A user document. \<open>password\<close> is \<open>None\<close> in a document loaded without
  \<^verbatim>\<open>select("+password")\<close>, since the schema declares the path \<^verbatim>\<open>select: false\<close>; the stored
  document always has it. \<open>accountActive\<close> is the schema's \<^verbatim>\<open>isActive\<close>, \<open>uid\<close> its \<^verbatim>\<open>_id\<close>.
\<close>

record user =
  uid :: nat
  username :: string
  email :: string
  password :: "string option"
  firstName :: string
  lastName :: string
  failedLoginAttempts :: int
  accountLockedUntil :: "time option"
  lastLoginAt :: "time option"
  passwordChangedAt :: "time option"
  activeSessions :: "string list"
  maxConcurrentSessions :: int
  isEmailVerified :: bool
  accountActive :: bool
  twoFactorEnabled :: bool
  emailNotifications :: bool

text \<open>bcrypt, idealised: the hash determines the password, and \<^verbatim>\<open>compare\<close> recomputes it.\<close>

definition bcrypt_hash :: "string \<Rightarrow> string" where
  "bcrypt_hash p = ''$2a$12$'' @ p"

definition comparePassword :: "user \<Rightarrow> string \<Rightarrow> bool" where
  "comparePassword this candidatePassword = (password this = Some (bcrypt_hash candidatePassword))"

definition isLocked :: "time \<Rightarrow> user \<Rightarrow> bool" where
  "isLocked now this = (case accountLockedUntil this of None \<Rightarrow> False | Some l \<Rightarrow> l > now)"

definition fullName :: "user \<Rightarrow> string" where
  "fullName this =
     (if firstName this \<noteq> [] \<and> lastName this \<noteq> [] then firstName this @ '' '' @ lastName this
      else if firstName this \<noteq> [] then firstName this
      else if lastName this \<noteq> [] then lastName this
      else username this)"

text \<open>
  \<^verbatim>\<open>parseInt(ms / 1000, 10)\<close> on a millisecond count: the quotient with its fraction cut
  off, towards zero.
\<close>

definition parseInt_seconds :: "time \<Rightarrow> int" where
  "parseInt_seconds ms = (if 0 \<le> ms then ms div 1000 else - ((- ms) div 1000))"

definition changedPasswordAfter :: "user \<Rightarrow> int \<Rightarrow> bool" where
  "changedPasswordAfter this JWTTimestamp =
     (case passwordChangedAt this of
        Some changed \<Rightarrow> JWTTimestamp < parseInt_seconds changed
      | None \<Rightarrow> False)"

text \<open>
  The pre-save hook on a changed \<open>password\<close> path of a stored (not new) document:
  hash it, and stamp \<open>passwordChangedAt\<close> one second in the past.
\<close>

definition save_password :: "time \<Rightarrow> string \<Rightarrow> user \<Rightarrow> user" where
  "save_password now plain this =
     (if password this = Some plain then this
      else this\<lparr>password := Some (bcrypt_hash plain), passwordChangedAt := Some (now - 1000)\<rparr>)"

text \<open>
  \<open>incLoginAttempts\<close> decides on the loaded document \<open>this\<close> and sends one
  \<^verbatim>\<open>updateOne\<close>; the result is the update, applied to the stored document.
\<close>

definition maxAttempts :: "env \<Rightarrow> int" where
  "maxAttempts e = parseInt_or (MAX_LOGIN_ATTEMPTS e) 5"

definition lockTime :: "env \<Rightarrow> int" where
  "lockTime e = parseInt_or (ACCOUNT_LOCK_TIME e) (30 * 60 * 1000)"

definition incLoginAttempts :: "env \<Rightarrow> time \<Rightarrow> user \<Rightarrow> user \<Rightarrow> user" where
  "incLoginAttempts e now this =
     (if (case accountLockedUntil this of None \<Rightarrow> False | Some l \<Rightarrow> l < now)
      then (\<lambda>d. d\<lparr>accountLockedUntil := None, failedLoginAttempts := 1\<rparr>)
      else if failedLoginAttempts this + 1 \<ge> maxAttempts e \<and> \<not> isLocked now this
      then (\<lambda>d. d\<lparr>failedLoginAttempts := failedLoginAttempts d + 1,
                  accountLockedUntil := Some (now + lockTime e)\<rparr>)
      else (\<lambda>d. d\<lparr>failedLoginAttempts := failedLoginAttempts d + 1\<rparr>))"

text \<open>
  \<open>resetLoginAttempts\<close> unsets both paths; a document read without
  \<open>failedLoginAttempts\<close> gets the schema default 0.
\<close>

definition resetLoginAttempts :: "user \<Rightarrow> user" where
  "resetLoginAttempts d = d\<lparr>failedLoginAttempts := 0, accountLockedUntil := None\<rparr>"

text \<open>\<^verbatim>\<open>xs.slice(-m)\<close>: the last \<open>m\<close> elements; all of them for \<open>m = 0\<close>; \<^verbatim>\<open>xs.slice(|m|)\<close> for \<open>m < 0\<close>.\<close>

definition slice_neg :: "int \<Rightarrow> 'a list \<Rightarrow> 'a list" where
  "slice_neg m xs =
     (if m > 0 then drop (length xs - nat m) xs
      else if m = 0 then xs
      else drop (nat (- m)) xs)"

definition addSession :: "time \<Rightarrow> string \<Rightarrow> user \<Rightarrow> user" where
  "addSession now sid this =
     (let added = filter (\<lambda>i. i \<noteq> sid) (activeSessions this) @ [sid];
          kept = (if int (length added) > maxConcurrentSessions this
                  then slice_neg (maxConcurrentSessions this) added else added)
      in this\<lparr>activeSessions := kept, lastLoginAt := Some now\<rparr>)"

definition removeSession :: "string \<Rightarrow> user \<Rightarrow> user" where
  "removeSession sid this = this\<lparr>activeSessions := filter (\<lambda>i. i \<noteq> sid) (activeSessions this)\<rparr>"

definition removeAllSessions :: "user \<Rightarrow> user" where
  "removeAllSessions this = this\<lparr>activeSessions := []\<rparr>"

text \<open>
  \<open>toJSON\<close>: the document's paths and virtuals, then the schema's transform, which
  deletes \<open>password\<close> and \<open>__v\<close>.
\<close>

definition opt_date :: "string \<Rightarrow> time option \<Rightarrow> member list" where
  "opt_date k v = (case v of None \<Rightarrow> [] | Some t \<Rightarrow> [Member k (JDate t)])"

definition toObject_user :: "time \<Rightarrow> user \<Rightarrow> member list" where
  "toObject_user now this =
     [Member ''_id'' (JNum (int (uid this))),
      Member ''username'' (JStr (username this)),
      Member ''email'' (JStr (email this))]
     @ (case password this of None \<Rightarrow> [] | Some h \<Rightarrow> [Member ''password'' (JStr h)])
     @ [Member ''firstName'' (JStr (firstName this)),
        Member ''lastName'' (JStr (lastName this)),
        Member ''failedLoginAttempts'' (JNum (failedLoginAttempts this))]
     @ opt_date ''accountLockedUntil'' (accountLockedUntil this)
     @ opt_date ''lastLoginAt'' (lastLoginAt this)
     @ opt_date ''passwordChangedAt'' (passwordChangedAt this)
     @ [Member ''activeSessions'' (JArr (map JStr (activeSessions this))),
        Member ''maxConcurrentSessions'' (JNum (maxConcurrentSessions this)),
        Member ''isEmailVerified'' (JBool (isEmailVerified this)),
        Member ''isActive'' (JBool (accountActive this)),
        Member ''twoFactorEnabled'' (JBool (twoFactorEnabled this)),
        Member ''emailNotifications'' (JBool (emailNotifications this)),
        Member ''__v'' (JNum 0),
        Member ''isLocked'' (JBool (isLocked now this)),
        Member ''fullName'' (JStr (fullName this)),
        Member ''id'' (JNum (int (uid this)))]"

definition transform_user :: "member list \<Rightarrow> member list" where
  "transform_user ret = delete_member ''__v'' (delete_member ''password'' ret)"

definition toJSON_user :: "time \<Rightarrow> user \<Rightarrow> member list" where
  "toJSON_user now this = transform_user (toObject_user now this)"

subsection \<open>Token codec (backend/middleware/auth.js)\<close>

text \<open>\<^verbatim>\<open>jwt.sign\<close> stamps \<open>iat\<close> with the current time in whole seconds and \<open>exp\<close> after it.\<close>

definition generateAccessToken :: "env \<Rightarrow> time \<Rightarrow> nat \<Rightarrow> string \<Rightarrow> string \<Rightarrow> string \<Rightarrow> token" where
  "generateAccessToken e now userId' sessionId' username' email' =
     AccessJwt \<lparr>a_userId = userId', a_sessionId = sessionId', a_username = username',
                a_email = email', a_iat = now div 1000,
                a_exp = now div 1000 + span_seconds (access_lifetime e)\<rparr>"

definition generateRefreshToken :: "env \<Rightarrow> time \<Rightarrow> nat \<Rightarrow> string \<Rightarrow> string \<Rightarrow> token" where
  "generateRefreshToken e now userId' sessionId' tokenFamily' =
     RefreshJwt \<lparr>r_userId = userId', r_sessionId = sessionId', r_tokenFamily = tokenFamily',
                 r_type = ''refresh'', r_iat = now div 1000,
                 r_exp = now div 1000 + span_seconds (refresh_lifetime e)\<rparr>"

datatype jwt_error = TokenExpiredError | JsonWebTokenError

text \<open>
  \<^verbatim>\<open>jwt.verify(token, secret)\<close>: the signature first, then the expiry, which has passed
  once the clock in seconds reaches \<open>exp\<close>.
\<close>

fun verify_access :: "time \<Rightarrow> token \<Rightarrow> jwt_error + access_claims" where
  "verify_access now (AccessJwt c) = (if now div 1000 \<ge> a_exp c then Inl TokenExpiredError else Inr c)"
| "verify_access now (RefreshJwt c) = Inl JsonWebTokenError"
| "verify_access now (OtherText s) = Inl JsonWebTokenError"

fun verify_refresh :: "time \<Rightarrow> token \<Rightarrow> jwt_error + refresh_claims" where
  "verify_refresh now (RefreshJwt c) = (if now div 1000 \<ge> r_exp c then Inl TokenExpiredError else Inr c)"
| "verify_refresh now (AccessJwt c) = Inl JsonWebTokenError"
| "verify_refresh now (OtherText s) = Inl JsonWebTokenError"

text \<open>A token variable is falsy when it is absent or the empty string.\<close>

fun token_missing :: "token option \<Rightarrow> bool" where
  "token_missing None = True"
| "token_missing (Some (OtherText s)) = (s = [])"
| "token_missing (Some t) = False"

text \<open>The hex digest of SHA-256 over the token string, idealised as collision free.\<close>

datatype digest = Sha256 token

subsection \<open>Session model (backend/models/Session.js)\<close>

record deviceInfo =
  userAgent :: string
  ip :: string
  location :: string
  deviceFingerprint :: "string option"

datatype loginMethod = Password | Refresh | Social

text \<open>
  A value of the string-to-string \<open>metadata\<close> map: a literal, or the ISO text of a date
  (\<^verbatim>\<open>new Date().toISOString()\<close>).
\<close>

datatype meta = Text string | IsoString time

record session =
  userId :: nat
  sessionId :: string
  refreshTokenHash :: digest
  tokenFamily :: string
  deviceInfo :: deviceInfo
  isActive :: bool
  expiresAt :: time
  lastAccessedAt :: time
  loginMethod :: loginMethod
  riskScore :: int
  metadata :: "(string \<times> meta) list"
  createdAt :: time

text \<open>\<^verbatim>\<open>Map.prototype.set\<close>: an existing key keeps its place, a new one goes last.\<close>

fun map_set :: "string \<Rightarrow> meta \<Rightarrow> (string \<times> meta) list \<Rightarrow> (string \<times> meta) list" where
  "map_set k v [] = [(k, v)]"
| "map_set k v (p # ps) = (if fst p = k then (k, v) # ps else p # map_set k v ps)"

definition hour :: int where
  "hour = 1000 * 60 * 60"

definition calculateRiskScore :: "time \<Rightarrow> session \<Rightarrow> session" where
  "calculateRiskScore now this =
     (let age = now - createdAt this;
          score1 = (if age > 24 * 7 * hour then 20 else if age > 24 * hour then 10 else 0);
          inactive = now - lastAccessedAt this;
          score2 = (if inactive > 24 * hour then score1 + 15
                    else if inactive > 6 * hour then score1 + 5 else score1);
          score3 = (if deviceFingerprint (deviceInfo this) = None
                       \<or> deviceFingerprint (deviceInfo this) = Some []
                    then score2 + 10 else score2)
      in this\<lparr>riskScore := min score3 100\<rparr>)"

text \<open>
  The pre-save hook recomputes the score of a new document and of one whose
  \<open>lastAccessedAt\<close> path is modified, that is, was set to a different value.
\<close>

definition set_lastAccessedAt :: "time \<Rightarrow> session \<Rightarrow> session" where
  "set_lastAccessedAt now this =
     (if lastAccessedAt this = now then this
      else calculateRiskScore now (this\<lparr>lastAccessedAt := now\<rparr>))"

definition updateLastAccessed :: "time \<Rightarrow> session \<Rightarrow> session" where
  "updateLastAccessed now this = set_lastAccessedAt now this"

definition deactivate :: "time \<Rightarrow> string \<Rightarrow> session \<Rightarrow> session" where
  "deactivate now reason this =
     this\<lparr>isActive := False,
          metadata := map_set ''deactivatedAt'' (IsoString now)
                        (map_set ''deactivationReason'' (Text reason) (metadata this))\<rparr>"

subsection \<open>The store\<close>

record db =
  users :: "user list"
  sessions :: "session list"

text \<open>Write a change into the stored document with the given key.\<close>

definition update_user :: "nat \<Rightarrow> (user \<Rightarrow> user) \<Rightarrow> db \<Rightarrow> db" where
  "update_user i f d = d\<lparr>users := map (\<lambda>u. if uid u = i then f u else u) (users d)\<rparr>"

definition update_session :: "string \<Rightarrow> (session \<Rightarrow> session) \<Rightarrow> db \<Rightarrow> db" where
  "update_session i f d =
     d\<lparr>sessions := map (\<lambda>s. if sessionId s = i then f s else s) (sessions d)\<rparr>"

text \<open>A document loaded without the \<open>password\<close> path.\<close>

definition unselect_password :: "user \<Rightarrow> user" where
  "unselect_password u = u\<lparr>password := None\<rparr>"

definition findById :: "nat \<Rightarrow> db \<Rightarrow> user option" where
  "findById i d = map_option unselect_password (find (\<lambda>u. uid u = i) (users d))"

definition findActiveByUser :: "time \<Rightarrow> nat \<Rightarrow> db \<Rightarrow> session list" where
  "findActiveByUser now u d =
     filter (\<lambda>s. userId s = u \<and> isActive s \<and> expiresAt s > now) (sessions d)"

definition revokeAllForUser :: "time \<Rightarrow> nat \<Rightarrow> string \<Rightarrow> db \<Rightarrow> db" where
  "revokeAllForUser now u reason d =
     d\<lparr>sessions :=
         map (\<lambda>s. if userId s = u \<and> isActive s
                  then s\<lparr>isActive := False,
                         metadata := map_set ''deactivatedAt'' (IsoString now)
                                       (map_set ''deactivationReason'' (Text reason) (metadata s))\<rparr>
                  else s)
             (sessions d)\<rparr>"

text \<open>
  \<open>detectTokenReuse\<close>: is another active session of the family stored? If so, every
  session of the family is switched off and marked.
\<close>

definition detectTokenReuse :: "time \<Rightarrow> string \<Rightarrow> string \<Rightarrow> db \<Rightarrow> bool \<times> db" where
  "detectTokenReuse now family currentSessionId d =
     (if filter (\<lambda>s. tokenFamily s = family \<and> isActive s \<and> sessionId s \<noteq> currentSessionId)
           (sessions d) \<noteq> []
      then (True,
            d\<lparr>sessions :=
                map (\<lambda>s. if tokenFamily s = family
                         then s\<lparr>isActive := False, riskScore := 100,
                                metadata := map_set ''breachDetectedAt'' (IsoString now)
                                              (map_set ''securityBreach''
                                                 (Text ''token_reuse_detected'') (metadata s))\<rparr>
                         else s)
                    (sessions d)\<rparr>)
      else (False, d))"

subsection \<open>Request gate (backend/middleware/auth.js)\<close>

text \<open>What a handler reads of the HTTP request besides its body.\<close>

record client =
  header_userAgent :: "string option"
  req_ip :: "string option"
  remoteAddress :: "string option"
  header_country :: "string option"

text \<open>Base-64 text, represented by the bytes it encodes.\<close>

definition base64 :: "string \<Rightarrow> string" where
  "base64 s = s"

definition getDeviceInfo :: "client \<Rightarrow> deviceInfo" where
  "getDeviceInfo req =
     (let ua = str_or (header_userAgent req) ''Unknown'';
          addr = str_or (req_ip req) (str_or (remoteAddress req) ''Unknown'')
      in \<lparr>userAgent = ua, ip = addr, location = str_or (header_country req) ''Unknown'',
          deviceFingerprint = Some (base64 (ua @ ''-'' @ addr))\<rparr>)"

text \<open>
  \<open>authenticate\<close> answers the request itself (\<open>Inl\<close>, with the store it leaves) or
  passes the loaded user and session on to the handler (\<open>Inr\<close>). \<open>bearer\<close> is the text
  after \<^verbatim>\<open>Bearer \<close> in the Authorization header, \<open>None\<close> without such a header.
\<close>

definition authenticate ::
  "time \<Rightarrow> token option \<Rightarrow> db \<Rightarrow> (response \<times> db) + (user \<times> session \<times> db)" where
  "authenticate now bearer d =
     (case bearer of
        None \<Rightarrow> Inl (failure 401 ''Access token required'' ''TOKEN_MISSING'', d)
      | Some t \<Rightarrow>
          if token_missing (Some t)
          then Inl (failure 401 ''Access token required'' ''TOKEN_MISSING'', d)
          else
            (case verify_access now t of
               Inl TokenExpiredError \<Rightarrow>
                 Inl (failure 401 ''Access token has expired'' ''TOKEN_EXPIRED'', d)
             | Inl JsonWebTokenError \<Rightarrow>
                 Inl (failure 401 ''Invalid access token'' ''TOKEN_INVALID'', d)
             | Inr decoded \<Rightarrow>
                 (case find (\<lambda>s. sessionId s = a_sessionId decoded \<and> userId s = a_userId decoded
                                  \<and> isActive s \<and> expiresAt s > now) (sessions d) of
                    None \<Rightarrow> Inl (failure 401 ''Session not found or expired'' ''SESSION_INVALID'', d)
                  | Some sess \<Rightarrow>
                      (case findById (a_userId decoded) d of
                         None \<Rightarrow> Inl (failure 401 ''User not found'' ''USER_NOT_FOUND'', d)
                       | Some usr \<Rightarrow>
                           if \<not> accountActive usr
                           then Inl (failure 401 ''Account is deactivated'' ''ACCOUNT_DEACTIVATED'', d)
                           else if isLocked now usr
                           then Inl (failure 401
                                  ''Account is locked due to multiple failed login attempts''
                                  ''ACCOUNT_LOCKED'', d)
                           else if changedPasswordAfter usr (a_iat decoded)
                           then Inl (failure 401
                                  ''Password has been changed. Please log in again.''
                                  ''PASSWORD_CHANGED'',
                                  update_session (sessionId sess)
                                    (deactivate now ''password_changed'') d)
                           else Inr (usr, updateLastAccessed now sess,
                                     update_session (sessionId sess) (updateLastAccessed now) d)))))"

subsection \<open>Session creation (backend/routes/auth.js)\<close>

text \<open>The values a handler draws: the new user's ObjectId and the two random UUIDs.\<close>

record fresh =
  objectId :: nat
  uuid1 :: string
  uuid2 :: string

text \<open>MongoDB's duplicate key error (code 11000) with the path of the violated index.\<close>

datatype db_error = DuplicateKey string

definition day :: int where
  "day = 24 * 60 * 60 * 1000"

definition createUserSession ::
  "env \<Rightarrow> time \<Rightarrow> client \<Rightarrow> fresh \<Rightarrow> user \<Rightarrow> bool \<Rightarrow> db
     \<Rightarrow> db_error + (token \<times> token \<times> session \<times> user \<times> db)" where
  "createUserSession e now req fr usr rememberMe d =
     (let devInfo = getDeviceInfo req;
          sessionId' = uuid1 fr;
          tokenFamily' = uuid2 fr;
          accessToken = generateAccessToken e now (uid usr) sessionId' (username usr) (email usr);
          refreshToken = generateRefreshToken e now (uid usr) sessionId' tokenFamily';
          expiryTime = (if rememberMe then 30 * day else 7 * day);
          sess = calculateRiskScore now
                   \<lparr>userId = uid usr, sessionId = sessionId',
                    refreshTokenHash = Sha256 refreshToken, tokenFamily = tokenFamily',
                    deviceInfo = devInfo, isActive = True, expiresAt = now + expiryTime,
                    lastAccessedAt = now, loginMethod = Password, riskScore = 0,
                    metadata = [], createdAt = now\<rparr>
      in if sessionId' \<in> sessionId ` set (sessions d)
         then Inl (DuplicateKey ''sessionId'')
         else
           (let d1 = d\<lparr>sessions := sessions d @ [sess]\<rparr>;
                usr' = addSession now sessionId' usr;
                d2 = update_user (uid usr)
                       (\<lambda>doc. doc\<lparr>activeSessions := activeSessions usr',
                                  lastLoginAt := lastLoginAt usr'\<rparr>) d1
            in Inr (accessToken, refreshToken, sess, usr', d2)))"

definition tokens_json :: "env \<Rightarrow> token \<Rightarrow> token \<Rightarrow> json" where
  "tokens_json e accessToken refreshToken =
     JObj [Member ''accessToken'' (JToken accessToken),
           Member ''refreshToken'' (JToken refreshToken),
           Member ''expiresIn'' (JStr (span_text (access_lifetime e)))]"

text \<open>The body of a successful registration or login.\<close>

definition auth_body :: "string \<Rightarrow> env \<Rightarrow> time \<Rightarrow> user \<Rightarrow> token \<Rightarrow> token \<Rightarrow> session \<Rightarrow> json" where
  "auth_body msg e now usr accessToken refreshToken sess =
     (let userResponse = delete_member ''password'' (toJSON_user now usr)
      in JObj [Member ''success'' (JBool True),
               Member ''message'' (JStr msg),
               Member ''user'' (JObj userResponse),
               Member ''tokens'' (tokens_json e accessToken refreshToken),
               Member ''session'' (JObj [Member ''id'' (JStr (sessionId sess)),
                                         Member ''expiresAt'' (JDate (expiresAt sess))])])"

text \<open>\<^verbatim>\<open>field.charAt(0).toUpperCase() + field.slice(1)\<close> on ASCII text.\<close>

definition capitalize :: "string \<Rightarrow> string" where
  "capitalize s =
     (case s of
        [] \<Rightarrow> []
      | c # cs \<Rightarrow>
          (if 97 \<le> (of_char c :: nat) \<and> (of_char c :: nat) \<le> 122
           then char_of ((of_char c :: nat) - 32) else c) # cs)"

definition duplicate_key :: "string \<Rightarrow> response" where
  "duplicate_key field = failure 409 (capitalize field @ '' is already taken'') ''DUPLICATE_KEY''"

subsection \<open>Route handlers (backend/routes/auth.js)\<close>

record register_body =
  reg_username :: string
  reg_email :: string
  reg_password :: string
  reg_firstName :: "string option"
  reg_lastName :: "string option"

record login_body =
  login_email :: string
  login_password :: string
  rememberMe :: bool

text \<open>\<^verbatim>\<open>new User(userData)\<close> with the schema defaults, after the pre-save hook hashed the password.\<close>

definition new_user :: "env \<Rightarrow> time \<Rightarrow> nat \<Rightarrow> register_body \<Rightarrow> user" where
  "new_user e now i b =
     \<lparr>uid = i, username = reg_username b, email = reg_email b,
      password = Some (bcrypt_hash (reg_password b)),
      firstName = str_or (reg_firstName b) [], lastName = str_or (reg_lastName b) [],
      failedLoginAttempts = 0, accountLockedUntil = None, lastLoginAt = None,
      passwordChangedAt = Some now, activeSessions = [],
      maxConcurrentSessions = parseInt_or (SESSION_MAX_CONCURRENT e) 5,
      isEmailVerified = False, accountActive = True, twoFactorEnabled = False,
      emailNotifications = True\<rparr>"

definition register :: "env \<Rightarrow> time \<Rightarrow> client \<Rightarrow> fresh \<Rightarrow> register_body \<Rightarrow> db \<Rightarrow> response \<times> db" where
  "register e now req fr b d =
     (case find (\<lambda>u. email u = reg_email b \<or> username u = reg_username b) (users d) of
        Some existingUser \<Rightarrow>
          (failure 409
             (if email existingUser = reg_email b then ''Email is already registered''
              else ''Username is already taken'')
             ''USER_EXISTS'', d)
      | None \<Rightarrow>
          if objectId fr \<in> uid ` set (users d) then (duplicate_key ''_id'', d)
          else
            (let usr = new_user e now (objectId fr) b;
                 d1 = d\<lparr>users := users d @ [usr]\<rparr>
             in case createUserSession e now req fr usr False d1 of
                  Inl (DuplicateKey field) \<Rightarrow> (duplicate_key field, d1)
                | Inr (accessToken, refreshToken, sess, usr', d2) \<Rightarrow>
                    (\<lparr>status = 201,
                      body = auth_body ''User registered successfully'' e now usr'
                               accessToken refreshToken sess\<rparr>, d2)))"

definition login :: "env \<Rightarrow> time \<Rightarrow> client \<Rightarrow> fresh \<Rightarrow> login_body \<Rightarrow> db \<Rightarrow> response \<times> db" where
  "login e now req fr b d =
     (case find (\<lambda>u. email u = login_email b) (users d) of
        None \<Rightarrow> (failure 401 ''Invalid email or password'' ''INVALID_CREDENTIALS'', d)
      | Some usr \<Rightarrow>
          if isLocked now usr
          then (\<lparr>status = 423,
                 body = JObj ([Member ''success'' (JBool False),
                               Member ''error'' (JStr
                                 ''Account is temporarily locked due to multiple failed login attempts''),
                               Member ''code'' (JStr ''ACCOUNT_LOCKED'')]
                              @ opt_date ''lockedUntil'' (accountLockedUntil usr))\<rparr>, d)
          else if \<not> accountActive usr
          then (failure 401 ''Account is deactivated'' ''ACCOUNT_DEACTIVATED'', d)
          else if \<not> comparePassword usr (login_password b)
          then (failure 401 ''Invalid email or password'' ''INVALID_CREDENTIALS'',
                update_user (uid usr) (incLoginAttempts e now usr) d)
          else
            (let d1 = (if failedLoginAttempts usr > 0
                       then update_user (uid usr) resetLoginAttempts d else d)
             in case createUserSession e now req fr usr (rememberMe b) d1 of
                  Inl err \<Rightarrow> (failure 500 ''Login failed'' ''LOGIN_ERROR'', d1)
                | Inr (accessToken, refreshToken, sess, usr', d2) \<Rightarrow>
                    (\<lparr>status = 200,
                      body = auth_body ''Login successful'' e now usr'
                               accessToken refreshToken sess\<rparr>, d2)))"

definition refresh :: "env \<Rightarrow> time \<Rightarrow> token option \<Rightarrow> db \<Rightarrow> response \<times> db" where
  "refresh e now body_refreshToken d =
     (case body_refreshToken of
        None \<Rightarrow> (failure 401 ''Refresh token required'' ''REFRESH_TOKEN_MISSING'', d)
      | Some refreshToken \<Rightarrow>
          if token_missing (Some refreshToken)
          then (failure 401 ''Refresh token required'' ''REFRESH_TOKEN_MISSING'', d)
          else
            (case verify_refresh now refreshToken of
               Inl jwtError \<Rightarrow>
                 (failure 401 ''Invalid or expired refresh token'' ''REFRESH_TOKEN_INVALID'', d)
             | Inr decoded \<Rightarrow>
                 (case find (\<lambda>s. sessionId s = r_sessionId decoded
                                  \<and> refreshTokenHash s = Sha256 refreshToken
                                  \<and> isActive s \<and> expiresAt s > now) (sessions d) of
                    None \<Rightarrow> (failure 401 ''Session not found or expired'' ''SESSION_INVALID'', d)
                  | Some sess \<Rightarrow>
                      (case detectTokenReuse now (r_tokenFamily decoded) (r_sessionId decoded) d of
                         (True, d1) \<Rightarrow>
                           (failure 401
                              ''Security breach detected. All sessions have been revoked.''
                              ''TOKEN_REUSE_DETECTED'', d1)
                       | (False, d1) \<Rightarrow>
                           (case find (\<lambda>u. uid u = userId sess) (users d1) of
                              None \<Rightarrow> (failure 500 ''Token refresh failed'' ''REFRESH_ERROR'', d1)
                            | Some usr \<Rightarrow>
                                (let newAccessToken =
                                       generateAccessToken e now (uid usr) (sessionId sess)
                                         (username usr) (email usr);
                                     newRefreshToken =
                                       generateRefreshToken e now (uid usr) (sessionId sess)
                                         (r_tokenFamily decoded);
                                     d2 = update_session (sessionId sess)
                                            (\<lambda>s. set_lastAccessedAt now
                                                   (s\<lparr>refreshTokenHash := Sha256 newRefreshToken\<rparr>))
                                            d1
                                 in (\<lparr>status = 200,
                                      body = JObj [Member ''success'' (JBool True),
                                                   Member ''message'' (JStr ''Tokens refreshed successfully''),
                                                   Member ''tokens''
                                                     (tokens_json e newAccessToken newRefreshToken)]\<rparr>,
                                     d2)))))))"

text \<open>
  The handlers behind the gate are split in two: the handler proper, on the user and
  session the gate attached to the request, and the route, which runs the gate first.
\<close>

definition logout_handler :: "time \<Rightarrow> user \<Rightarrow> session \<Rightarrow> db \<Rightarrow> response \<times> db" where
  "logout_handler now req_user req_session d =
     (let d1 = update_session (sessionId req_session) (deactivate now ''user_logout'') d;
          d2 = update_user (uid req_user)
                 (\<lambda>doc. doc\<lparr>activeSessions :=
                              activeSessions (removeSession (sessionId req_session) req_user)\<rparr>) d1
      in (success_message ''Logged out successfully'', d2))"

definition logout :: "time \<Rightarrow> token option \<Rightarrow> db \<Rightarrow> response \<times> db" where
  "logout now bearer d =
     (case authenticate now bearer d of
        Inl answered \<Rightarrow> answered
      | Inr (req_user, req_session, d1) \<Rightarrow> logout_handler now req_user req_session d1)"

definition logout_all_handler :: "time \<Rightarrow> user \<Rightarrow> session \<Rightarrow> db \<Rightarrow> response \<times> db" where
  "logout_all_handler now req_user req_session d =
     (let d1 = revokeAllForUser now (uid req_user) ''user_logout_all'' d;
          d2 = update_user (uid req_user)
                 (\<lambda>doc. doc\<lparr>activeSessions := activeSessions (removeAllSessions req_user)\<rparr>) d1
      in (success_message ''Logged out from all devices successfully'', d2))"

definition logout_all :: "time \<Rightarrow> token option \<Rightarrow> db \<Rightarrow> response \<times> db" where
  "logout_all now bearer d =
     (case authenticate now bearer d of
        Inl answered \<Rightarrow> answered
      | Inr (req_user, req_session, d1) \<Rightarrow> logout_all_handler now req_user req_session d1)"

definition deviceInfo_json :: "deviceInfo \<Rightarrow> json" where
  "deviceInfo_json i =
     JObj ([Member ''userAgent'' (JStr (userAgent i)), Member ''ip'' (JStr (ip i)),
            Member ''location'' (JStr (location i))]
           @ (case deviceFingerprint i of None \<Rightarrow> []
              | Some f \<Rightarrow> [Member ''deviceFingerprint'' (JStr f)]))"

definition me_handler :: "time \<Rightarrow> user \<Rightarrow> session \<Rightarrow> db \<Rightarrow> response \<times> db" where
  "me_handler now req_user req_session d =
     (\<lparr>status = 200,
       body = JObj [Member ''success'' (JBool True),
                    Member ''user'' (JObj (toJSON_user now req_user)),
                    Member ''session''
                      (JObj [Member ''id'' (JStr (sessionId req_session)),
                             Member ''expiresAt'' (JDate (expiresAt req_session)),
                             Member ''lastAccessedAt'' (JDate (lastAccessedAt req_session)),
                             Member ''deviceInfo'' (deviceInfo_json (deviceInfo req_session))])]\<rparr>,
      d)"

definition me :: "time \<Rightarrow> token option \<Rightarrow> db \<Rightarrow> response \<times> db" where
  "me now bearer d =
     (case authenticate now bearer d of
        Inl answered \<Rightarrow> answered
      | Inr (req_user, req_session, d1) \<Rightarrow> me_handler now req_user req_session d1)"

definition session_json :: "session \<Rightarrow> session \<Rightarrow> json" where
  "session_json req_session s =
     JObj [Member ''id'' (JStr (sessionId s)),
           Member ''deviceInfo'' (deviceInfo_json (deviceInfo s)),
           Member ''lastAccessedAt'' (JDate (lastAccessedAt s)),
           Member ''createdAt'' (JDate (createdAt s)),
           Member ''expiresAt'' (JDate (expiresAt s)),
           Member ''isCurrent'' (JBool (sessionId s = sessionId req_session))]"

definition sessions_handler :: "time \<Rightarrow> user \<Rightarrow> session \<Rightarrow> db \<Rightarrow> response \<times> db" where
  "sessions_handler now req_user req_session d =
     (\<lparr>status = 200,
       body = JObj [Member ''success'' (JBool True),
                    Member ''sessions''
                      (JArr (map (session_json req_session)
                               (findActiveByUser now (uid req_user) d)))]\<rparr>,
      d)"

definition list_sessions :: "time \<Rightarrow> token option \<Rightarrow> db \<Rightarrow> response \<times> db" where
  "list_sessions now bearer d =
     (case authenticate now bearer d of
        Inl answered \<Rightarrow> answered
      | Inr (req_user, req_session, d1) \<Rightarrow> sessions_handler now req_user req_session d1)"

definition revoke_handler :: "time \<Rightarrow> string \<Rightarrow> user \<Rightarrow> session \<Rightarrow> db \<Rightarrow> response \<times> db" where
  "revoke_handler now param_sessionId req_user req_session d =
     (case find (\<lambda>s. sessionId s = param_sessionId \<and> userId s = uid req_user \<and> isActive s)
             (sessions d) of
        None \<Rightarrow> (failure 404 ''Session not found'' ''SESSION_NOT_FOUND'', d)
      | Some sess \<Rightarrow>
          (let d1 = update_session (sessionId sess) (deactivate now ''user_revoked'') d;
               d2 = update_user (uid req_user)
                      (\<lambda>doc. doc\<lparr>activeSessions :=
                                   activeSessions (removeSession param_sessionId req_user)\<rparr>) d1
           in (success_message ''Session revoked successfully'', d2)))"

definition revoke_session :: "time \<Rightarrow> token option \<Rightarrow> string \<Rightarrow> db \<Rightarrow> response \<times> db" where
  "revoke_session now bearer param_sessionId d =
     (case authenticate now bearer d of
        Inl answered \<Rightarrow> answered
      | Inr (req_user, req_session, d1) \<Rightarrow>
          revoke_handler now param_sessionId req_user req_session d1)"

definition change_password_handler ::
  "time \<Rightarrow> string \<Rightarrow> string \<Rightarrow> user \<Rightarrow> session \<Rightarrow> db \<Rightarrow> response \<times> db" where
  "change_password_handler now currentPassword newPassword req_user req_session d =
     (case find (\<lambda>u. uid u = uid req_user) (users d) of
        None \<Rightarrow> (failure 500 ''Failed to change password'' ''CHANGE_PASSWORD_ERROR'', d)
      | Some usr \<Rightarrow>
          if \<not> comparePassword usr currentPassword
          then (failure 400 ''Current password is incorrect'' ''INVALID_CURRENT_PASSWORD'', d)
          else
            (let d1 = update_user (uid usr) (save_password now newPassword) d;
                 d2 = d1\<lparr>sessions :=
                          map (\<lambda>s. if userId s = uid usr \<and> isActive s
                                      \<and> sessionId s \<noteq> sessionId req_session
                                   then s\<lparr>isActive := False,
                                          metadata := map_set ''deactivationReason''
                                                        (Text ''password_changed'') (metadata s)\<rparr>
                                   else s)
                              (sessions d1)\<rparr>
             in (success_message
                   ''Password changed successfully. Other sessions have been logged out.'', d2)))"

definition change_password ::
  "time \<Rightarrow> token option \<Rightarrow> string \<Rightarrow> string \<Rightarrow> db \<Rightarrow> response \<times> db" where
  "change_password now bearer currentPassword newPassword d =
     (case authenticate now bearer d of
        Inl answered \<Rightarrow> answered
      | Inr (req_user, req_session, d1) \<Rightarrow>
          change_password_handler now currentPassword newPassword req_user req_session d1)"

subsection \<open>The HTTP surface\<close>

datatype request =
    Register client fresh register_body
  | Login client fresh login_body
  | RefreshTokens "token option"
  | Logout "token option"
  | LogoutAll "token option"
  | Me "token option"
  | ListSessions "token option"
  | RevokeSession "token option" string
  | ChangePassword "token option" string string

fun handle :: "env \<Rightarrow> time \<Rightarrow> request \<Rightarrow> db \<Rightarrow> response \<times> db" where
  "handle e now (Register req fr b) d = register e now req fr b d"
| "handle e now (Login req fr b) d = login e now req fr b d"
| "handle e now (RefreshTokens t) d = refresh e now t d"
| "handle e now (Logout t) d = logout now t d"
| "handle e now (LogoutAll t) d = logout_all now t d"
| "handle e now (Me t) d = me now t d"
| "handle e now (ListSessions t) d = list_sessions now t d"
| "handle e now (RevokeSession t i) d = revoke_session now t i d"
| "handle e now (ChangePassword t c n) d = change_password now t c n d"

text \<open>A history of requests, each with the instant it is handled at.\<close>

fun run :: "env \<Rightarrow> (time \<times> request) list \<Rightarrow> db \<Rightarrow> db" where
  "run e [] d = d"
| "run e ((now, r) # rs) d = run e rs (snd (handle e now r d))"

subsection \<open>Notions the properties are stated with\<close>

text \<open>The refresh token a response hands out, if any.\<close>

definition issued_refresh_token :: "response \<Rightarrow> token option" where
  "issued_refresh_token r =
     (case body r of
        JObj ms \<Rightarrow>
          (case get_member ''tokens'' ms of
             Some (JObj ts) \<Rightarrow>
               (case get_member ''refreshToken'' ts of Some (JToken t) \<Rightarrow> Some t | _ \<Rightarrow> None)
           | _ \<Rightarrow> None)
      | _ \<Rightarrow> None)"

text \<open>The stored hash is the hash of a refresh token signed in the clock second of \<open>now\<close>.\<close>

definition hashed_at :: "time \<Rightarrow> session \<Rightarrow> bool" where
  "hashed_at now s =
     (case refreshTokenHash s of
        Sha256 (RefreshJwt c) \<Rightarrow> r_iat c = now div 1000
      | _ \<Rightarrow> False)"

text \<open>
  \<open>session_step now s s'\<close>: what one request handled at \<open>now\<close> may do to a stored
  session \<open>s\<close>. Its identity, family, owner, device, expiry and creation stamp stay, it
  is not switched back on, and its hash stays or is one signed at \<open>now\<close>.
\<close>

definition session_step :: "time \<Rightarrow> session \<Rightarrow> session \<Rightarrow> bool" where
  "session_step now s s' =
     (userId s' = userId s \<and> sessionId s' = sessionId s \<and> tokenFamily s' = tokenFamily s
      \<and> deviceInfo s' = deviceInfo s \<and> expiresAt s' = expiresAt s
      \<and> loginMethod s' = loginMethod s \<and> createdAt s' = createdAt s
      \<and> (isActive s' \<longrightarrow> isActive s)
      \<and> (refreshTokenHash s' = refreshTokenHash s \<or> hashed_at now s'))"

text \<open>
  \<open>store_step now d d'\<close>: the stored sessions keep their places and make a
  \<open>session_step\<close> each; the sessions behind them are new, created at \<open>now\<close>.
\<close>

definition store_step :: "time \<Rightarrow> db \<Rightarrow> db \<Rightarrow> bool" where
  "store_step now d d' =
     (list_all2 (session_step now) (sessions d) (take (length (sessions d)) (sessions d'))
      \<and> list_all (\<lambda>s. hashed_at now s \<and> createdAt s = now)
           (drop (length (sessions d)) (sessions d')))"


text \<open>The token is the current refresh token of a usable session.\<close>

definition current_token :: "time \<Rightarrow> token \<Rightarrow> refresh_claims \<Rightarrow> db \<Rightarrow> bool" where
  "current_token now t c d =
     list_ex (\<lambda>s. sessionId s = r_sessionId c \<and> refreshTokenHash s = Sha256 t
                  \<and> isActive s \<and> expiresAt s > now) (sessions d)"

text \<open>Another active session is stored under the token's family.\<close>

definition family_shared :: "refresh_claims \<Rightarrow> db \<Rightarrow> bool" where
  "family_shared c d =
     list_ex (\<lambda>s. tokenFamily s = r_tokenFamily c \<and> isActive s \<and> sessionId s \<noteq> r_sessionId c)
       (sessions d)"

subsection \<open>A small history\<close>

text \<open>
  The default environment, one client, and alice, who registers at time 0 and logs in a
  second time one minute later.
\<close>

definition env0 :: env where
  "env0 = \<lparr>MAX_LOGIN_ATTEMPTS = None, ACCOUNT_LOCK_TIME = None, SESSION_MAX_CONCURRENT = None,
           JWT_EXPIRES_IN = None, JWT_REFRESH_EXPIRES_IN = None\<rparr>"

definition client0 :: client where
  "client0 = \<lparr>header_userAgent = Some ''curl'', req_ip = Some ''10.0.0.1'',
              remoteAddress = None, header_country = None\<rparr>"

definition alice_body :: register_body where
  "alice_body = \<lparr>reg_username = ''alice'', reg_email = ''alice@x.com'',
                 reg_password = ''Passw0rd1'', reg_firstName = None, reg_lastName = None\<rparr>"

definition alice_login :: "string \<Rightarrow> login_body" where
  "alice_login p = \<lparr>login_email = ''alice@x.com'', login_password = p, rememberMe = False\<rparr>"

definition fresh1 :: fresh where
  "fresh1 = \<lparr>objectId = 1, uuid1 = ''s1'', uuid2 = ''f1''\<rparr>"

definition fresh2 :: fresh where
  "fresh2 = \<lparr>objectId = 2, uuid1 = ''s2'', uuid2 = ''f2''\<rparr>"

definition empty_db :: db where
  "empty_db = \<lparr>users = [], sessions = []\<rparr>"

text \<open>The tokens of alice's first session, issued at time 0.\<close>

definition access1 :: token where
  "access1 = AccessJwt \<lparr>a_userId = 1, a_sessionId = ''s1'', a_username = ''alice'',
                         a_email = ''alice@x.com'', a_iat = 0, a_exp = 1800\<rparr>"

definition refresh1 :: token where
  "refresh1 = RefreshJwt \<lparr>r_userId = 1, r_sessionId = ''s1'', r_tokenFamily = ''f1'',
                           r_type = ''refresh'', r_iat = 0, r_exp = 604800\<rparr>"

text \<open>The access token of her second session, issued at time 60000.\<close>

definition access2 :: token where
  "access2 = AccessJwt \<lparr>a_userId = 1, a_sessionId = ''s2'', a_username = ''alice'',
                         a_email = ''alice@x.com'', a_iat = 60, a_exp = 1860\<rparr>"

definition alice :: user where
  "alice = \<lparr>uid = 1, username = ''alice'', email = ''alice@x.com'',
            password = Some ''$2a$12$Passw0rd1'', firstName = [], lastName = [],
            failedLoginAttempts = 0, accountLockedUntil = None, lastLoginAt = Some 0,
            passwordChangedAt = Some 0, activeSessions = [''s1''], maxConcurrentSessions = 5,
            isEmailVerified = False, accountActive = True, twoFactorEnabled = False,
            emailNotifications = True\<rparr>"

definition device0 :: deviceInfo where
  "device0 = \<lparr>userAgent = ''curl'', ip = ''10.0.0.1'', location = ''Unknown'',
              deviceFingerprint = Some ''curl-10.0.0.1''\<rparr>"

definition session1 :: session where
  "session1 = \<lparr>userId = 1, sessionId = ''s1'', refreshTokenHash = Sha256 refresh1,
               tokenFamily = ''f1'', deviceInfo = device0, isActive = True,
               expiresAt = 604800000, lastAccessedAt = 0, loginMethod = Password,
               riskScore = 0, metadata = [], createdAt = 0\<rparr>"

text \<open>The store after alice's registration.\<close>

definition db1 :: db where
  "db1 = \<lparr>users = [alice], sessions = [session1]\<rparr>"

text \<open>The store after her second login, and after she then changed her password there.\<close>

definition db2 :: db where
  "db2 = snd (login env0 60000 client0 fresh2 (alice_login ''Passw0rd1'') db1)"

definition db3 :: db where
  "db3 = snd (change_password 120000 (Some access2) ''Passw0rd1'' ''N3wPassword'' db2)"




text \<open>The store after alice refreshed her first session at time 2000.\<close>

definition db_rotated :: db where
  "db_rotated = snd (refresh env0 2000 (Some refresh1) db1)"



section \<open>What one request may do to the stored sessions\<close>

lemma code_failure [simp]: "code (failure st msg c) = Some (JStr c)"
  by (simp add: code_def failure_def)

lemma status_failure [simp]: "status (failure st msg c) = st"
  by (simp add: failure_def)

lemma status_success_message [simp]: "status (success_message msg) = 200"
  by (simp add: success_message_def)

lemma code_success_message [simp]: "code (success_message msg) = None"
  by (simp add: code_def success_message_def)

lemma sessions_update_user [simp]: "sessions (update_user i f d) = sessions d"
  by (simp add: update_user_def)

lemma users_update_session [simp]: "users (update_session i f d) = users d"
  by (simp add: update_session_def)

lemma sessions_update_session:
  "sessions (update_session i f d) = map (\<lambda>s. if sessionId s = i then f s else s) (sessions d)"
  by (simp add: update_session_def)

lemma session_step_refl [simp]: "session_step now s s"
  by (simp add: session_step_def)

lemma hashed_at_cong:
  "refreshTokenHash s' = refreshTokenHash s \<Longrightarrow> hashed_at now s' = hashed_at now s"
  by (simp add: hashed_at_def)

lemma session_step_trans:
  "session_step now s s' \<Longrightarrow> session_step now s' s'' \<Longrightarrow> session_step now s s''"
  unfolding session_step_def using hashed_at_cong by metis

lemma store_step_refl [simp]: "store_step now d d"
  by (simp add: store_step_def list_all2_same)

lemma store_step_map:
  assumes "sessions d' = map g (sessions d)" and "\<And>s. session_step now s (g s)"
  shows "store_step now d d'"
  using assms by (simp add: store_step_def list_all2_map2 list_all2_same)

lemma store_step_append:
  assumes "sessions d' = sessions d @ [s]" and "hashed_at now s" and "createdAt s = now"
  shows "store_step now d d'"
  using assms by (simp add: store_step_def list_all2_same)

lemma store_step_iff:
  "store_step now d d' \<longleftrightarrow>
     (\<exists>ys zs. sessions d' = ys @ zs \<and> list_all2 (session_step now) (sessions d) ys
              \<and> list_all (\<lambda>s. hashed_at now s \<and> createdAt s = now) zs)"
proof
  assume "store_step now d d'"
  then have "sessions d' = take (length (sessions d)) (sessions d') @ drop (length (sessions d)) (sessions d')
      \<and> list_all2 (session_step now) (sessions d) (take (length (sessions d)) (sessions d'))
      \<and> list_all (\<lambda>s. hashed_at now s \<and> createdAt s = now) (drop (length (sessions d)) (sessions d'))"
    by (simp add: store_step_def)
  then show "\<exists>ys zs. sessions d' = ys @ zs \<and> list_all2 (session_step now) (sessions d) ys
              \<and> list_all (\<lambda>s. hashed_at now s \<and> createdAt s = now) zs"
    by blast
next
  assume "\<exists>ys zs. sessions d' = ys @ zs \<and> list_all2 (session_step now) (sessions d) ys
              \<and> list_all (\<lambda>s. hashed_at now s \<and> createdAt s = now) zs"
  then obtain ys zs where e: "sessions d' = ys @ zs"
    and a: "list_all2 (session_step now) (sessions d) ys"
    and n: "list_all (\<lambda>s. hashed_at now s \<and> createdAt s = now) zs"
    by blast
  have "length ys = length (sessions d)" using a by (simp add: list_all2_lengthD)
  then show "store_step now d d'" using e a n by (simp add: store_step_def)
qed

lemma new_session_step:
  assumes "list_all2 (session_step now) zs ys"
    and "list_all (\<lambda>s. hashed_at now s \<and> createdAt s = now) zs"
  shows "list_all (\<lambda>s. hashed_at now s \<and> createdAt s = now) ys"
  using assms
proof (induction zs ys rule: list_all2_induct)
  case Nil
  then show ?case by simp
next
  case (Cons x xs y ys)
  from Cons.hyps(1) Cons.prems have "hashed_at now y \<and> createdAt y = now"
    by (auto simp: session_step_def hashed_at_def)
  with Cons show ?case by simp
qed

lemma store_step_trans:
  assumes a: "store_step now d d1" and b: "store_step now d1 d2"
  shows "store_step now d d2"
proof -
  from a obtain ys zs where 1: "sessions d1 = ys @ zs"
    and 2: "list_all2 (session_step now) (sessions d) ys"
    and 3: "list_all (\<lambda>s. hashed_at now s \<and> createdAt s = now) zs"
    unfolding store_step_iff by blast
  from b obtain ys' zs' where 4: "sessions d2 = ys' @ zs'"
    and 5: "list_all2 (session_step now) (ys @ zs) ys'"
    and 6: "list_all (\<lambda>s. hashed_at now s \<and> createdAt s = now) zs'"
    unfolding store_step_iff 1 by blast
  from 5 obtain us vs where 7: "ys' = us @ vs"
    and 8: "list_all2 (session_step now) ys us" and 9: "list_all2 (session_step now) zs vs"
    by (auto simp: list_all2_append1)
  have "list_all2 (session_step now) (sessions d) us"
    using 2 8 by (rule list_all2_trans[rotated]) (rule session_step_trans)
  moreover have "list_all (\<lambda>s. hashed_at now s \<and> createdAt s = now) (vs @ zs')"
    using new_session_step[OF 9 3] 6 by simp
  moreover have "sessions d2 = us @ (vs @ zs')" using 4 7 by simp
  ultimately show ?thesis unfolding store_step_iff by blast
qed


lemma store_step_update_user [simp]:
  "store_step now d (update_user i f d')  = store_step now d d'"
  by (simp add: store_step_def)

lemma store_step_users_update [simp]:
  "store_step now d (d'\<lparr>users := us\<rparr>) = store_step now d d'"
  by (simp add: store_step_def)

lemma store_step_update_user1 [simp]:
  "store_step now (update_user i f d) d' = store_step now d d'"
  by (simp add: store_step_def)

lemma store_step_users_update1 [simp]:
  "store_step now (d\<lparr>users := us\<rparr>) d' = store_step now d d'"
  by (simp add: store_step_def)

lemma store_step_update_session:
  assumes "\<And>s. session_step now s (f s)"
  shows "store_step now d (update_session i f d)"
  by (rule store_step_map[where g = "\<lambda>s. if sessionId s = i then f s else s"])
     (simp_all add: sessions_update_session assms)

lemma session_step_deactivate [simp]: "session_step now s (deactivate now reason s)"
  by (simp add: session_step_def deactivate_def)

lemma session_step_updateLastAccessed [simp]: "session_step now s (updateLastAccessed now s)"
  by (simp add: session_step_def updateLastAccessed_def set_lastAccessedAt_def
      calculateRiskScore_def Let_def)

lemma store_step_revokeAllForUser: "store_step now d (revokeAllForUser now u reason d)"
  by (rule store_step_map[where g = "\<lambda>s. if userId s = u \<and> isActive s
         then s\<lparr>isActive := False,
                metadata := map_set ''deactivatedAt'' (IsoString now)
                              (map_set ''deactivationReason'' (Text reason) (metadata s))\<rparr>
         else s"])
     (simp_all add: revokeAllForUser_def session_step_def)

lemma store_step_detectTokenReuse: "store_step now d (snd (detectTokenReuse now family cur d))"
proof (cases "fst (detectTokenReuse now family cur d)")
  case True
  then show ?thesis
    by (intro store_step_map[where g = "\<lambda>s. if tokenFamily s = family
         then s\<lparr>isActive := False, riskScore := 100,
                metadata := map_set ''breachDetectedAt'' (IsoString now)
                              (map_set ''securityBreach'' (Text ''token_reuse_detected'')
                                 (metadata s))\<rparr>
         else s"])
       (auto simp: detectTokenReuse_def session_step_def split: if_splits)
next
  case False
  then show ?thesis by (auto simp: detectTokenReuse_def split: if_splits)
qed

lemma store_step_authenticate_Inl:
  "authenticate now bearer d = Inl (r, d') \<Longrightarrow> store_step now d d'"
  by (auto simp: authenticate_def store_step_update_session
      split: option.splits if_splits sum.splits jwt_error.splits)

lemma store_step_authenticate_Inr:
  "authenticate now bearer d = Inr (u, s, d') \<Longrightarrow> store_step now d d'"
  by (auto simp: authenticate_def store_step_update_session
      split: option.splits if_splits sum.splits jwt_error.splits)

lemma store_step_createUserSession:
  "createUserSession e now req fr usr rm d = Inr (a, r, s, u', d') \<Longrightarrow> store_step now d d'"
  by (auto simp: createUserSession_def Let_def calculateRiskScore_def hashed_at_def
      generateRefreshToken_def split: if_splits
      intro!: store_step_append)

lemma store_step_register: "store_step now d (snd (register e now req fr b d))"
  by (auto simp: register_def Let_def split: option.splits sum.splits db_error.splits
      dest!: store_step_createUserSession)

lemma store_step_login: "store_step now d (snd (login e now req fr b d))"
  by (auto simp: login_def Let_def split: option.splits sum.splits db_error.splits
      dest!: store_step_createUserSession)


lemma store_step_then_update_session:
  assumes "store_step now d b" and "\<And>s. session_step now s (f s)"
  shows "store_step now d (update_session i f b)"
  using assms(1) store_step_update_session[of now f, OF assms(2)] by (rule store_step_trans)

lemma store_step_detectTokenReuse_eq:
  "detectTokenReuse now family cur d = (x, d') \<Longrightarrow> store_step now d d'"
  using store_step_detectTokenReuse[of now d family cur] by simp

lemma session_step_rotate [simp]:
  "session_step now s
     (set_lastAccessedAt now (s\<lparr>refreshTokenHash := Sha256 (generateRefreshToken e now u j f)\<rparr>))"
  by (simp add: session_step_def set_lastAccessedAt_def calculateRiskScore_def Let_def
      hashed_at_def generateRefreshToken_def)

lemma store_step_refresh: "store_step now d (snd (refresh e now t d))"
  by (auto simp: refresh_def Let_def split: option.splits sum.splits prod.splits bool.splits
      dest!: store_step_detectTokenReuse_eq intro!: store_step_then_update_session)

lemma store_step_logout: "store_step now d (snd (logout now t d))"
  by (auto simp: logout_def logout_handler_def Let_def split: sum.splits
      dest!: store_step_authenticate_Inl store_step_authenticate_Inr
      intro!: store_step_then_update_session)

lemma store_step_logout_all: "store_step now d (snd (logout_all now t d))"
  by (auto simp: logout_all_def logout_all_handler_def Let_def split: sum.splits
      dest!: store_step_authenticate_Inl store_step_authenticate_Inr
      intro: store_step_trans store_step_revokeAllForUser)

lemma store_step_me: "store_step now d (snd (me now t d))"
  by (auto simp: me_def me_handler_def split: sum.splits
      dest!: store_step_authenticate_Inl store_step_authenticate_Inr)

lemma store_step_list_sessions: "store_step now d (snd (list_sessions now t d))"
  by (auto simp: list_sessions_def sessions_handler_def split: sum.splits
      dest!: store_step_authenticate_Inl store_step_authenticate_Inr)

lemma store_step_revoke_session: "store_step now d (snd (revoke_session now t i d))"
  by (auto simp: revoke_session_def revoke_handler_def Let_def split: sum.splits option.splits
      dest!: store_step_authenticate_Inl store_step_authenticate_Inr
      intro!: store_step_then_update_session)

lemma store_step_change_password_handler:
  "store_step now d (snd (change_password_handler now c n u cs d))"
proof (cases "find (\<lambda>x. uid x = uid u) (users d)")
  case None
  then show ?thesis by (simp add: change_password_handler_def)
next
  case (Some usr)
  show ?thesis
  proof (cases "comparePassword usr c")
    case False
    with Some show ?thesis by (simp add: change_password_handler_def)
  next
    case True
    have "store_step now d
            (update_user (uid usr) (save_password now n) d
               \<lparr>sessions :=
                  map (\<lambda>s. if userId s = uid usr \<and> isActive s \<and> sessionId s \<noteq> sessionId cs
                           then s\<lparr>isActive := False,
                                  metadata := map_set ''deactivationReason''
                                                (Text ''password_changed'') (metadata s)\<rparr>
                           else s)
                    (sessions (update_user (uid usr) (save_password now n) d))\<rparr>)"
      by (rule store_step_map[where g = "\<lambda>s. if userId s = uid usr \<and> isActive s
                                               \<and> sessionId s \<noteq> sessionId cs
                           then s\<lparr>isActive := False,
                                  metadata := map_set ''deactivationReason''
                                                (Text ''password_changed'') (metadata s)\<rparr>
                           else s"])
         (simp_all add: session_step_def)
    with Some True show ?thesis by (simp add: change_password_handler_def Let_def)
  qed
qed

lemma store_step_change_password: "store_step now d (snd (change_password now t c n d))"
  by (auto simp: change_password_def split: sum.splits
      dest!: store_step_authenticate_Inl store_step_authenticate_Inr
      intro: store_step_trans store_step_change_password_handler)

lemma store_step_handle: "store_step now d (snd (handle e now q d))"
  by (cases q)
     (simp_all add: store_step_register store_step_login store_step_refresh store_step_logout
        store_step_logout_all store_step_me store_step_list_sessions store_step_revoke_session
        store_step_change_password)

section \<open>Lineage of the stored sessions\<close>








section \<open>Refreshing\<close>

text \<open>What a successful refresh is: the lookup finds a session, no reuse is seen, the owner is stored.\<close>

lemma refresh_success:
  assumes "status (fst (refresh e now t d)) = 200"
  obtains tok c sess usr where
    "t = Some tok" "verify_refresh now tok = Inr c"
    "find (\<lambda>s. sessionId s = r_sessionId c \<and> refreshTokenHash s = Sha256 tok
                \<and> isActive s \<and> expiresAt s > now) (sessions d) = Some sess"
    "find (\<lambda>u. uid u = userId sess) (users d) = Some usr"
    "refresh e now t d =
       (\<lparr>status = 200,
         body = JObj [Member ''success'' (JBool True),
                      Member ''message'' (JStr ''Tokens refreshed successfully''),
                      Member ''tokens''
                        (tokens_json e
                           (generateAccessToken e now (uid usr) (sessionId sess) (username usr) (email usr))
                           (generateRefreshToken e now (uid usr) (sessionId sess) (r_tokenFamily c)))]\<rparr>,
        update_session (sessionId sess)
          (\<lambda>s. set_lastAccessedAt now
                 (s\<lparr>refreshTokenHash :=
                      Sha256 (generateRefreshToken e now (uid usr) (sessionId sess) (r_tokenFamily c))\<rparr>))
          d)"
  using assms
  by (auto simp: refresh_def Let_def detectTokenReuse_def
      split: option.splits sum.splits if_splits prod.splits bool.splits)


lemma length_sessions_refresh:
  "length (sessions (snd (refresh e now t d))) = length (sessions d)"
  by (auto simp: refresh_def Let_def detectTokenReuse_def sessions_update_session
      split: option.splits sum.splits if_splits prod.splits bool.splits)



lemmas model_defs =
  register_def login_def refresh_def logout_def logout_handler_def logout_all_def
  logout_all_handler_def me_def me_handler_def list_sessions_def sessions_handler_def
  revoke_session_def revoke_handler_def change_password_def change_password_handler_def
  authenticate_def createUserSession_def new_user_def generateAccessToken_def
  generateRefreshToken_def calculateRiskScore_def getDeviceInfo_def str_or_def base64_def
  update_user_def update_session_def addSession_def removeSession_def removeAllSessions_def
  parseInt_or_def refresh_lifetime_def access_lifetime_def day_def hour_def bcrypt_hash_def
  findById_def unselect_password_def isLocked_def changedPasswordAfter_def parseInt_seconds_def
  updateLastAccessed_def set_lastAccessedAt_def deactivate_def detectTokenReuse_def
  revokeAllForUser_def findActiveByUser_def comparePassword_def incLoginAttempts_def
  resetLoginAttempts_def maxAttempts_def lockTime_def slice_neg_def save_password_def
  failure_def success_message_def code_def auth_body_def tokens_json_def duplicate_key_def
  issued_refresh_token_def

lemmas history_defs =
  env0_def client0_def alice_body_def alice_login_def fresh1_def fresh2_def empty_db_def
  access1_def refresh1_def access2_def alice_def device0_def session1_def db1_def

text \<open>
  The history is what the handlers produce: alice's registration at time 0 answers with
  \<open>access1\<close> and \<open>refresh1\<close> and leaves \<open>db1\<close>; her login at time 60000 answers with
  \<open>access2\<close>.
\<close>

lemma alice_registers:
  "register env0 0 client0 fresh1 alice_body empty_db
     = (\<lparr>status = 201,
         body = auth_body ''User registered successfully'' env0 0 alice access1 refresh1 session1\<rparr>,
        db1)"
  by (simp add: model_defs history_defs Let_def)

lemma alice_logs_in_again:
  "\<exists>u r s. fst (login env0 60000 client0 fresh2 (alice_login ''Passw0rd1'') db1)
     = \<lparr>status = 200, body = auth_body ''Login successful'' env0 60000 u access2 r s\<rparr>"
  by (simp add: login_def createUserSession_def Let_def
      generateAccessToken_def access_lifetime_def comparePassword_def bcrypt_hash_def
      isLocked_def history_defs) blast

section \<open>Expiry and lineage under refresh\<close>






section \<open>The password stamp\<close>

text \<open>
  C7, as the code has it. \<open>changedPasswordAfter\<close> is true exactly when the stored
  \<open>passwordChangedAt\<close>, cut to whole seconds, is after the token's issue time; nothing is
  subtracted there. The second of margin is taken off when a password change is saved,
  so that a token issued in the very instant of the change is not stale. From time 1000
  on, the tokens a change makes stale are those issued two clock seconds or more before it.
\<close>

theorem changedPasswordAfter_margin:
  "(changedPasswordAfter u iat \<longleftrightarrow>
      (case passwordChangedAt u of None \<Rightarrow> False | Some changed \<Rightarrow> iat < parseInt_seconds changed))
   \<and> (password u \<noteq> Some plain \<longrightarrow>
        passwordChangedAt (save_password now plain u) = Some (now - 1000)
        \<and> \<not> changedPasswordAfter (save_password now plain u) (now div 1000)
        \<and> (1000 \<le> now \<longrightarrow>
             changedPasswordAfter (save_password now plain u) iat = (iat + 1 < now div 1000)))"
proof (intro conjI impI)
  show "changedPasswordAfter u iat \<longleftrightarrow>
      (case passwordChangedAt u of None \<Rightarrow> False | Some changed \<Rightarrow> iat < parseInt_seconds changed)"
    by (simp add: changedPasswordAfter_def split: option.splits)
next
  assume "password u \<noteq> Some plain"
  then show "passwordChangedAt (save_password now plain u) = Some (now - 1000)"
    by (simp add: save_password_def)
next
  assume p: "password u \<noteq> Some plain"
  have "parseInt_seconds (now - 1000) \<le> now div 1000"
    by (simp add: parseInt_seconds_def) linarith
  with p show "\<not> changedPasswordAfter (save_password now plain u) (now div 1000)"
    by (simp add: save_password_def changedPasswordAfter_def)
next
  assume p: "password u \<noteq> Some plain" and n: "1000 \<le> now"
  have "parseInt_seconds (now - 1000) = now div 1000 - 1"
    using n by (simp add: parseInt_seconds_def)
  with p show "changedPasswordAfter (save_password now plain u) iat = (iat + 1 < now div 1000)"
    by (auto simp: save_password_def changedPasswordAfter_def)
qed

theorem changedPasswordAfter_margin_witness:
  "password alice \<noteq> Some ''N3wPassword'' \<and> (1000::int) \<le> 120000
   \<and> passwordChangedAt (save_password 120000 ''N3wPassword'' alice) = Some 119000
   \<and> \<not> changedPasswordAfter (save_password 120000 ''N3wPassword'' alice) 120
   \<and> changedPasswordAfter (save_password 120000 ''N3wPassword'' alice) 118"
proof -
  have p: "password alice \<noteq> Some ''N3wPassword''" by (simp add: alice_def)
  show ?thesis
    using p changedPasswordAfter_margin[of alice 118 "''N3wPassword''" 120000]
    by simp
qed

text \<open>
  C7 as stated fails: alice changes her password at time 120000; an access token signed
  in that instant carries \<open>iat = 120\<close>, and it is not treated as stale.
\<close>

theorem same_instant_token_not_stale:
  "generateAccessToken env0 120000 1 ''s1'' ''alice'' ''alice@x.com''
     = AccessJwt \<lparr>a_userId = 1, a_sessionId = ''s1'', a_username = ''alice'',
                  a_email = ''alice@x.com'', a_iat = 120, a_exp = 1920\<rparr>
   \<and> \<not> changedPasswordAfter (save_password 120000 ''N3wPassword'' alice) 120"
  by (simp add: model_defs history_defs)

section \<open>Sessions created by registration and login\<close>

lemma createUserSession_result:
  assumes "createUserSession e now req fr usr rm d = Inr (a, r, s, u', d')"
  shows "sessions d' = sessions d @ [s] \<and> sessionId s = uuid1 fr \<and> createdAt s = now
         \<and> expiresAt s = now + (if rm then 30 else 7) * day
         \<and> uuid1 fr \<notin> sessionId ` set (sessions d)"
  using assms
  by (auto simp: createUserSession_def Let_def calculateRiskScore_def split: if_splits)

lemma register_created:
  assumes "status (fst (register e now req fr b d)) = 201"
  shows "\<exists>s. sessions (snd (register e now req fr b d)) = sessions d @ [s]
             \<and> sessionId s = uuid1 fr \<and> createdAt s = now \<and> expiresAt s = now + 7 * day"
  using assms
  by (auto simp: register_def Let_def duplicate_key_def
      split: option.splits if_splits sum.splits db_error.splits
      dest!: createUserSession_result)

lemma register_not_created:
  assumes "status (fst (register e now req fr b d)) \<noteq> 201"
  shows "sessions (snd (register e now req fr b d)) = sessions d"
  using assms
  by (auto simp: register_def Let_def duplicate_key_def
      split: option.splits if_splits sum.splits db_error.splits)

lemma login_created:
  "sessions (snd (login e now req fr b d)) = sessions d
   \<or> (\<exists>s. sessions (snd (login e now req fr b d)) = sessions d @ [s]
          \<and> status (fst (login e now req fr b d)) = 200
          \<and> sessionId s = uuid1 fr \<and> createdAt s = now
          \<and> expiresAt s = now + (if rememberMe b then 30 else 7) * day)"
  by (auto simp: login_def Let_def
      split: option.splits if_splits sum.splits db_error.splits
      dest!: createUserSession_result)

lemma length_sessions_authenticate_Inl:
  "authenticate now t d = Inl (r, d') \<Longrightarrow> length (sessions d') = length (sessions d)"
  by (auto simp: authenticate_def sessions_update_session
      split: option.splits if_splits sum.splits jwt_error.splits)

lemma length_sessions_authenticate_Inr:
  "authenticate now t d = Inr (u, s, d') \<Longrightarrow> length (sessions d') = length (sessions d)"
  by (auto simp: authenticate_def sessions_update_session
      split: option.splits if_splits sum.splits jwt_error.splits)

lemma length_sessions_gated:
  "length (sessions (snd (logout now t d))) = length (sessions d)"
  "length (sessions (snd (logout_all now t d))) = length (sessions d)"
  "length (sessions (snd (me now t d))) = length (sessions d)"
  "length (sessions (snd (list_sessions now t d))) = length (sessions d)"
  "length (sessions (snd (revoke_session now t i d))) = length (sessions d)"
  "length (sessions (snd (change_password now t c n d))) = length (sessions d)"
  by (auto simp: logout_def logout_handler_def logout_all_def logout_all_handler_def me_def
      me_handler_def list_sessions_def sessions_handler_def revoke_session_def revoke_handler_def
      change_password_def change_password_handler_def revokeAllForUser_def Let_def
      sessions_update_session
      split: sum.splits option.splits
      dest!: length_sessions_authenticate_Inl length_sessions_authenticate_Inr)

text \<open>
  C9. A registration that succeeds stores exactly one new session, and its \<open>expiresAt\<close>
  lies exactly seven days (604800000 ms) after its creation. A session that any request
  adds to the store expires seven days after the request, unless the request is a login
  with \<open>rememberMe\<close> set, which gives it thirty days (2592000000 ms).
\<close>

theorem register_session_expires_in_7_days:
  "(status (fst (register e now req fr b d)) = 201 \<longrightarrow>
      (\<exists>s. sessions (snd (register e now req fr b d)) = sessions d @ [s]
           \<and> sessionId s = uuid1 fr \<and> createdAt s = now \<and> expiresAt s = now + 604800000))
   \<and> (status (fst (register e now req fr b d)) \<noteq> 201 \<longrightarrow>
        sessions (snd (register e now req fr b d)) = sessions d)
   \<and> list_all (\<lambda>s. createdAt s = now
                 \<and> (if (case q of Login req' fr' b' \<Rightarrow> rememberMe b' | _ \<Rightarrow> False)
                     then expiresAt s = now + 2592000000
                     else expiresAt s = now + 604800000))
        (drop (length (sessions d)) (sessions (snd (handle e now q d))))"
proof (intro conjI impI)
  assume "status (fst (register e now req fr b d)) = 201"
  then show "\<exists>s. sessions (snd (register e now req fr b d)) = sessions d @ [s]
           \<and> sessionId s = uuid1 fr \<and> createdAt s = now \<and> expiresAt s = now + 604800000"
    using register_created[of e now req fr b d] by (simp add: day_def)
next
  assume "status (fst (register e now req fr b d)) \<noteq> 201"
  then show "sessions (snd (register e now req fr b d)) = sessions d"
    by (rule register_not_created)
next
  show "list_all (\<lambda>s. createdAt s = now
                 \<and> (if (case q of Login req' fr' b' \<Rightarrow> rememberMe b' | _ \<Rightarrow> False)
                     then expiresAt s = now + 2592000000
                     else expiresAt s = now + 604800000))
        (drop (length (sessions d)) (sessions (snd (handle e now q d))))"
  proof (cases q)
    case (Register req' fr' b')
    show ?thesis
    proof (cases "status (fst (register e now req' fr' b' d)) = 201")
      case True
      then show ?thesis
        using register_created[of e now req' fr' b' d] Register by (auto simp: day_def)
    next
      case False
      then show ?thesis
        using register_not_created[of e now req' fr' b' d] Register by simp
    qed
  next
    case (Login req' fr' b')
    then show ?thesis
      using login_created[of e now req' fr' b' d] by (auto simp: day_def)
  next
    case (RefreshTokens t)
    then show ?thesis by (simp add: length_sessions_refresh)
  qed (simp_all add: length_sessions_gated)
qed

theorem register_session_expires_in_7_days_witness:
  "status (fst (register env0 0 client0 fresh1 alice_body empty_db)) = 201
   \<and> map expiresAt (sessions (snd (register env0 0 client0 fresh1 alice_body empty_db)))
       = [604800000]
   \<and> map createdAt (sessions (snd (register env0 0 client0 fresh1 alice_body empty_db))) = [0]"
proof -
  have ok: "status (fst (register env0 0 client0 fresh1 alice_body empty_db)) = 201"
    by (simp add: model_defs history_defs Let_def)
  have "\<exists>s. sessions (snd (register env0 0 client0 fresh1 alice_body empty_db))
               = sessions empty_db @ [s]
             \<and> sessionId s = uuid1 fresh1 \<and> createdAt s = 0 \<and> expiresAt s = 0 + 604800000"
    using ok register_session_expires_in_7_days[of env0 0 client0 fresh1 alice_body empty_db]
    by blast
  then show ?thesis using ok by (auto simp: empty_db_def)
qed

section \<open>What the response bodies mention\<close>

lemma mentions_members_append [simp]:
  "mentions_members k (xs @ ys) = (mentions_members k xs \<or> mentions_members k ys)"
  by (induction xs) auto

lemma mentions_members_delete:
  "\<not> mentions_members k ms \<Longrightarrow> \<not> mentions_members k (delete_member k' ms)"
  by (induction ms) (auto simp: delete_member_def)

lemma mentions_list_strings [simp]: "\<not> mentions_list k (map JStr xs)"
  by (induction xs) auto

lemma mentions_opt_date [simp]: "mentions_members k (opt_date k' v) = (v \<noteq> None \<and> k' = k)"
  by (cases v) (auto simp: opt_date_def)

lemma password_not_claimed [simp]: "''password'' \<notin> set (claim_names t)"
  by (cases t) simp_all

lemma delete_password_toObject:
  "\<not> mentions_members ''password'' (delete_member ''password'' (toObject_user now u))"
  by (cases "password u") (simp_all add: toObject_user_def delete_member_def opt_date_def
      split: option.splits)

lemma toJSON_user_no_password [simp]: "\<not> mentions_members ''password'' (toJSON_user now u)"
  unfolding toJSON_user_def transform_user_def
  by (rule mentions_members_delete) (rule delete_password_toObject)

lemma failure_no_password [simp]: "\<not> mentions ''password'' (body (failure st msg c))"
  by (simp add: failure_def)

lemma success_message_no_password [simp]: "\<not> mentions ''password'' (body (success_message msg))"
  by (simp add: success_message_def)

lemma tokens_json_no_password [simp]: "\<not> mentions ''password'' (tokens_json e a r)"
  by (simp add: tokens_json_def)

lemma auth_body_no_password [simp]: "\<not> mentions ''password'' (auth_body msg e now u a r s)"
  by (simp add: auth_body_def Let_def mentions_members_delete)

lemma deviceInfo_json_no_password [simp]: "\<not> mentions ''password'' (deviceInfo_json i)"
  by (simp add: deviceInfo_json_def split: option.splits)

lemma session_list_no_password [simp]:
  "\<not> mentions_list ''password'' (map (session_json cur) xs)"
  by (induction xs) (simp_all add: session_json_def)








section \<open>Deactivated sessions\<close>



lemma authenticate_inactive:
  assumes "verify_access now t = Inr c"
    and "\<not> list_ex (\<lambda>s. sessionId s = a_sessionId c \<and> userId s = a_userId c \<and> isActive s)
             (sessions d)"
  shows "authenticate now (Some t) d
         = Inl (failure 401 ''Session not found or expired'' ''SESSION_INVALID'', d)"
proof -
  have t: "\<not> token_missing (Some t)"
    using assms(1) by (cases t) simp_all
  have "find (\<lambda>s. sessionId s = a_sessionId c \<and> userId s = a_userId c
                   \<and> isActive s \<and> expiresAt s > now) (sessions d) = None"
    using assms(2) by (auto simp: find_None_iff list_ex_iff)
  with assms(1) t show ?thesis by (simp add: authenticate_def)
qed




section \<open>Changing the password\<close>

lemma authenticate_passes:
  assumes "authenticate now bearer d = Inr (u, cs, d1)"
  obtains t c s where
    "bearer = Some t" "verify_access now t = Inr c"
    "find (\<lambda>s. sessionId s = a_sessionId c \<and> userId s = a_userId c
                \<and> isActive s \<and> expiresAt s > now) (sessions d) = Some s"
    "findById (a_userId c) d = Some u"
    "cs = updateLastAccessed now s"
    "d1 = update_session (sessionId s) (updateLastAccessed now) d"
    "accountActive u" "\<not> isLocked now u" "\<not> changedPasswordAfter u (a_iat c)"
  using assms
  by (auto simp: authenticate_def
      split: option.splits if_splits sum.splits jwt_error.splits)

lemma findById_uid: "findById i d = Some u \<Longrightarrow> uid u = i"
  by (auto simp: findById_def unselect_password_def find_Some_iff)

lemma updateLastAccessed_keeps [simp]:
  "sessionId (updateLastAccessed now s) = sessionId s"
  "userId (updateLastAccessed now s) = userId s"
  "isActive (updateLastAccessed now s) = isActive s"
  by (simp_all add: updateLastAccessed_def set_lastAccessedAt_def calculateRiskScore_def Let_def)

lemma find_uid: "find (\<lambda>x. uid x = i) us = Some usr \<Longrightarrow> uid usr = i"
  by (auto simp: find_Some_iff)

lemma change_password_success:
  assumes gate: "authenticate now bearer d = Inr (u, cs, d1)"
    and ok: "status (fst (change_password now bearer cur new d)) = 200"
  shows "sessions (snd (change_password now bearer cur new d))
         = map (\<lambda>s. if userId s = uid u \<and> isActive s \<and> sessionId s \<noteq> sessionId cs
                     then s\<lparr>isActive := False,
                            metadata := map_set ''deactivationReason''
                                          (Text ''password_changed'') (metadata s)\<rparr>
                     else s)
             (sessions d1)"
  using ok
  by (auto simp: change_password_def gate change_password_handler_def Let_def
      split: option.splits if_splits dest: find_uid)


text \<open>
  C4, as the code has it. When a password change succeeds, every session of the user
  other than the one that performed the change is inactive afterwards, and the
  performing session is still active. An unexpired access token of that user for
  another session is then turned away at the gate, with \<open>SESSION_INVALID\<close>: the gate
  looks for an active session before it compares the token with the password change.
\<close>

theorem change_password_revokes_other_sessions:
  "authenticate now bearer d = Inr (u, cs, d1)
   \<and> status (fst (change_password now bearer cur new d)) = 200 \<longrightarrow>
     list_all (\<lambda>s. userId s = uid u \<and> sessionId s \<noteq> sessionId cs \<longrightarrow> \<not> isActive s)
       (sessions (snd (change_password now bearer cur new d)))
     \<and> list_ex (\<lambda>s. userId s = uid u \<and> sessionId s = sessionId cs \<and> isActive s)
         (sessions (snd (change_password now bearer cur new d)))
     \<and> (verify_access now' t' = Inr c' \<and> a_userId c' = uid u \<and> a_sessionId c' \<noteq> sessionId cs \<longrightarrow>
          authenticate now' (Some t') (snd (change_password now bearer cur new d))
            = Inl (failure 401 ''Session not found or expired'' ''SESSION_INVALID'',
                   snd (change_password now bearer cur new d)))"
proof (intro impI)
  assume a: "authenticate now bearer d = Inr (u, cs, d1)
             \<and> status (fst (change_password now bearer cur new d)) = 200"
  let ?d' = "snd (change_password now bearer cur new d)"
  let ?revoke = "\<lambda>s. if userId s = uid u \<and> isActive s \<and> sessionId s \<noteq> sessionId cs
                     then s\<lparr>isActive := False,
                            metadata := map_set ''deactivationReason''
                                          (Text ''password_changed'') (metadata s)\<rparr>
                     else s"
  from a have gate: "authenticate now bearer d = Inr (u, cs, d1)" by simp
  from a have ss: "sessions ?d' = map ?revoke (sessions d1)"
    by (intro change_password_success) simp_all
  have others: "list_all (\<lambda>s. userId s = uid u \<and> sessionId s \<noteq> sessionId cs \<longrightarrow> \<not> isActive s)
       (sessions ?d')"
    unfolding ss by (auto simp: list_all_iff)
  have current: "list_ex (\<lambda>s. userId s = uid u \<and> sessionId s = sessionId cs \<and> isActive s)
         (sessions ?d')"
  proof -
    from gate obtain t c s where
      "bearer = Some t" and "verify_access now t = Inr c" and
      f: "find (\<lambda>s. sessionId s = a_sessionId c \<and> userId s = a_userId c
                \<and> isActive s \<and> expiresAt s > now) (sessions d) = Some s"
      and fu: "findById (a_userId c) d = Some u"
      and cs: "cs = updateLastAccessed now s"
      and d1: "d1 = update_session (sessionId s) (updateLastAccessed now) d"
      by (rule authenticate_passes) blast
    from f have s: "s \<in> set (sessions d)" "isActive s" "userId s = a_userId c"
      by (auto simp: find_Some_iff)
    have u: "uid u = a_userId c" using fu by (rule findById_uid)
    have "updateLastAccessed now s \<in> set (sessions d1)"
      using s(1) unfolding d1 sessions_update_session by force
    then have "?revoke (updateLastAccessed now s) \<in> set (sessions ?d')"
      unfolding ss by simp
    moreover have "?revoke (updateLastAccessed now s) = updateLastAccessed now s"
      by (simp add: cs)
    ultimately have "updateLastAccessed now s \<in> set (sessions ?d')" by simp
    then show ?thesis
      unfolding list_ex_iff using s(2,3) u cs by (intro bexI[of _ "updateLastAccessed now s"]) simp_all
  qed
  have gate': "authenticate now' (Some t') ?d'
            = Inl (failure 401 ''Session not found or expired'' ''SESSION_INVALID'', ?d')"
    if "verify_access now' t' = Inr c' \<and> a_userId c' = uid u \<and> a_sessionId c' \<noteq> sessionId cs"
  proof (rule authenticate_inactive)
    show "verify_access now' t' = Inr c'" using that by simp
    show "\<not> list_ex (\<lambda>s. sessionId s = a_sessionId c' \<and> userId s = a_userId c' \<and> isActive s)
             (sessions ?d')"
      using others that by (auto simp: list_ex_iff list_all_iff)
  qed
  show "list_all (\<lambda>s. userId s = uid u \<and> sessionId s \<noteq> sessionId cs \<longrightarrow> \<not> isActive s)
       (sessions ?d')
     \<and> list_ex (\<lambda>s. userId s = uid u \<and> sessionId s = sessionId cs \<and> isActive s) (sessions ?d')
     \<and> (verify_access now' t' = Inr c' \<and> a_userId c' = uid u \<and> a_sessionId c' \<noteq> sessionId cs \<longrightarrow>
          authenticate now' (Some t') ?d'
            = Inl (failure 401 ''Session not found or expired'' ''SESSION_INVALID'', ?d'))"
    using others current gate' by blast
qed

lemma login_alice_again:
  "db2 = \<lparr>users = [alice\<lparr>lastLoginAt := Some 60000, activeSessions := [''s1'', ''s2'']\<rparr>],
          sessions = [session1,
                      \<lparr>userId = 1, sessionId = ''s2'',
                       refreshTokenHash =
                         Sha256 (RefreshJwt \<lparr>r_userId = 1, r_sessionId = ''s2'',
                                   r_tokenFamily = ''f2'', r_type = ''refresh'',
                                   r_iat = 60, r_exp = 604860\<rparr>),
                       tokenFamily = ''f2'', deviceInfo = device0, isActive = True,
                       expiresAt = 604860000, lastAccessedAt = 60000, loginMethod = Password,
                       riskScore = 0, metadata = [], createdAt = 60000\<rparr>]\<rparr>"
  by (simp add: db2_def model_defs history_defs Let_def)

lemma alice_changes_password:
  "status (fst (change_password 120000 (Some access2) ''Passw0rd1'' ''N3wPassword'' db2)) = 200"
  "map (\<lambda>s. (sessionId s, userId s, isActive s)) (sessions db3)
     = [(''s1'', 1, False), (''s2'', 1, True)]"
  unfolding db3_def login_alice_again
  by (simp_all add: model_defs history_defs Let_def)

text \<open>
  The session that performed the change survives the change itself, but the access token
  it was performed with dates from before the stamp: at its next use the gate answers
  \<open>PASSWORD_CHANGED\<close> and switches that session off too.
\<close>

lemma performing_session_token_stale:
  "code (fst (me 130000 (Some access2) db3)) = Some (JStr ''PASSWORD_CHANGED'')
   \<and> map isActive (sessions (snd (me 130000 (Some access2) db3))) = [False, False]"
  unfolding db3_def login_alice_again
  by (simp add: model_defs history_defs Let_def)

theorem change_password_revokes_other_sessions_witness:
  "status (fst (change_password 120000 (Some access2) ''Passw0rd1'' ''N3wPassword'' db2)) = 200
   \<and> status (fst (me 110000 (Some access1) db2)) = 200
   \<and> map (\<lambda>s. (sessionId s, userId s, isActive s)) (sessions db3)
       = [(''s1'', 1, False), (''s2'', 1, True)]
   \<and> authenticate 130000 (Some access1) db3
       = Inl (failure 401 ''Session not found or expired'' ''SESSION_INVALID'', db3)"
proof -
  let ?c1 = "\<lparr>a_userId = 1, a_sessionId = ''s1'', a_username = ''alice'',
              a_email = ''alice@x.com'', a_iat = 0, a_exp = 1800\<rparr>"
  obtain u cs d1 where gate: "authenticate 120000 (Some access2) db2 = Inr (u, cs, d1)"
    and u: "uid u = 1" and cs: "sessionId cs = ''s2''"
    unfolding login_alice_again
    by (simp add: model_defs history_defs Let_def)
  have ok: "status (fst (change_password 120000 (Some access2) ''Passw0rd1'' ''N3wPassword'' db2)) = 200"
    by (rule alice_changes_password)
  have before: "status (fst (me 110000 (Some access1) db2)) = 200"
    unfolding login_alice_again by (simp add: model_defs history_defs Let_def)
  have v: "verify_access 130000 access1 = Inr ?c1 \<and> a_userId ?c1 = uid u
           \<and> a_sessionId ?c1 \<noteq> sessionId cs"
    by (simp add: access1_def u cs)
  have "authenticate 130000 (Some access1) db3
       = Inl (failure 401 ''Session not found or expired'' ''SESSION_INVALID'', db3)"
    using change_password_revokes_other_sessions[of 120000 "Some access2" db2 u cs d1
        "''Passw0rd1''" "''N3wPassword''" 130000 access1 ?c1] gate ok v
    unfolding db3_def by blast
  with ok before alice_changes_password(2) show ?thesis by simp
qed

text \<open>
  C4 as stated fails: alice holds two sessions and changes her password in the second at
  time 120000. The access token of the first session, good until second 1800 and accepted
  before the change, is rejected at time 130000 with \<open>SESSION_INVALID\<close>, not with
  \<open>PASSWORD_CHANGED\<close>.
\<close>

theorem other_session_rejected_as_session_invalid:
  "status (fst (change_password 120000 (Some access2) ''Passw0rd1'' ''N3wPassword'' db2)) = 200
   \<and> status (fst (me 110000 (Some access1) db2)) = 200
   \<and> code (fst (me 130000 (Some access1) db3)) = Some (JStr ''SESSION_INVALID'')
   \<and> code (fst (me 130000 (Some access1) db3)) \<noteq> Some (JStr ''PASSWORD_CHANGED'')"
  unfolding db3_def login_alice_again
  by (simp add: model_defs history_defs Let_def)

section \<open>Failed logins\<close>



lemma email_incLoginAttempts [simp]: "email (incLoginAttempts e now this x) = email x"
  by (simp add: incLoginAttempts_def)







section \<open>Rotation and reuse\<close>

lemma verified_refresh_token:
  assumes "verify_refresh now t = Inr c"
  shows "t = RefreshJwt c" and "\<not> token_missing (Some t)" and "now div 1000 < r_exp c"
  using assms by (cases t; auto split: if_splits)+

lemma refresh_not_current:
  assumes "verify_refresh now t = Inr c" and "\<not> current_token now t c d"
  shows "refresh e now (Some t) d
         = (failure 401 ''Session not found or expired'' ''SESSION_INVALID'', d)"
proof -
  have "find (\<lambda>s. sessionId s = r_sessionId c \<and> refreshTokenHash s = Sha256 t
                \<and> isActive s \<and> expiresAt s > now) (sessions d) = None"
    using assms(2) by (auto simp: current_token_def find_None_iff list_ex_iff)
  then show ?thesis
    using assms(1) verified_refresh_token(2)[OF assms(1)] by (simp add: refresh_def)
qed

lemma detectTokenReuse_shared:
  "fst (detectTokenReuse now (r_tokenFamily c) (r_sessionId c) d) = family_shared c d"
  by (auto simp: detectTokenReuse_def family_shared_def list_ex_iff filter_empty_conv)


lemma code_of_object: "code \<lparr>status = st, body = JObj ms\<rparr> = get_member ''code'' ms"
  by (simp add: code_def)

lemma refresh_reuse_only:
  assumes "code (fst (refresh e now bt d)) = Some (JStr ''TOKEN_REUSE_DETECTED'')"
  shows "\<exists>t c. bt = Some t \<and> verify_refresh now t = Inr c \<and> current_token now t c d
               \<and> family_shared c d"
proof -
  from assms obtain t c sess where
    "bt = Some t" "verify_refresh now t = Inr c"
    "find (\<lambda>s. sessionId s = r_sessionId c \<and> refreshTokenHash s = Sha256 t
                \<and> isActive s \<and> expiresAt s > now) (sessions d) = Some sess"
    "fst (detectTokenReuse now (r_tokenFamily c) (r_sessionId c) d)"
    by (auto simp: refresh_def Let_def code_of_object tokens_json_def
        split: option.splits if_splits sum.splits prod.splits bool.splits)
  then show ?thesis
    by (auto simp: detectTokenReuse_shared current_token_def list_ex_iff find_Some_iff
        intro!: exI[of _ t] exI[of _ c])
qed


text \<open>
  Where every stored hash is the hash of a token that carries the id and the family of
  its session, and no two sessions have one family, as it is when every login draws a
  family of its own, no refresh is answered \<open>TOKEN_REUSE_DETECTED\<close>.
\<close>

lemma reuse_not_detected_with_families_apart:
  assumes apart: "distinct (map tokenFamily (sessions d))"
    and issued: "list_all (\<lambda>s. case refreshTokenHash s of
                                 Sha256 (RefreshJwt c) \<Rightarrow>
                                   r_sessionId c = sessionId s \<and> r_tokenFamily c = tokenFamily s
                               | _ \<Rightarrow> True) (sessions d)"
  shows "code (fst (refresh e now bt d)) \<noteq> Some (JStr ''TOKEN_REUSE_DETECTED'')"
proof
  assume "code (fst (refresh e now bt d)) = Some (JStr ''TOKEN_REUSE_DETECTED'')"
  then obtain t c where v: "verify_refresh now t = Inr c"
    and cur: "current_token now t c d" and shared: "family_shared c d"
    by (blast dest: refresh_reuse_only)
  have t: "t = RefreshJwt c" using v by (rule verified_refresh_token)
  from cur obtain s where s: "s \<in> set (sessions d)" "sessionId s = r_sessionId c"
    "refreshTokenHash s = Sha256 (RefreshJwt c)"
    by (auto simp: current_token_def list_ex_iff t)
  from shared obtain s' where s': "s' \<in> set (sessions d)" "tokenFamily s' = r_tokenFamily c"
    "sessionId s' \<noteq> r_sessionId c"
    by (auto simp: family_shared_def list_ex_iff)
  from issued s(1,3) have "r_tokenFamily c = tokenFamily s"
    by (auto simp: list_all_iff)
  with s'(2) have "tokenFamily s' = tokenFamily s" by simp
  moreover have "inj_on tokenFamily (set (sessions d))"
    using apart by (simp add: distinct_map)
  ultimately have "s' = s" using s(1) s'(1) by (auto dest: inj_onD)
  with s(2) s'(3) show False by simp
qed



lemma alice_rotates:
  "db_rotated = \<lparr>users = [alice],
                 sessions = [session1\<lparr>refreshTokenHash :=
                                        Sha256 (RefreshJwt \<lparr>r_userId = 1, r_sessionId = ''s1'',
                                                  r_tokenFamily = ''f1'', r_type = ''refresh'',
                                                  r_iat = 2, r_exp = 604802\<rparr>),
                                      lastAccessedAt := 2000\<rparr>]\<rparr>"
  "status (fst (refresh env0 2000 (Some refresh1) db1)) = 200"
  by (simp_all add: db_rotated_def model_defs history_defs Let_def)




text \<open>
  A token that is not the stored hash of any session of its id stays so, as long as the
  clock has passed the second the token was signed in: every hash written later is the
  hash of a token with a later \<open>iat\<close>.
\<close>

lemma list_all2_source:
  assumes "list_all2 R xs ys" and "y \<in> set ys"
  shows "\<exists>x\<in>set xs. R x y"
  using assms by (induction rule: list_all2_induct) auto

lemma hashed_at_other_second:
  assumes "hashed_at now s" and "r_iat c < now div 1000"
  shows "refreshTokenHash s \<noteq> Sha256 (RefreshJwt c)"
  using assms by (auto simp: hashed_at_def split: digest.splits token.splits)

lemma superseded_store_step:
  assumes step: "store_step now d d'" and later: "r_iat c < now div 1000"
    and inv: "\<not> list_ex (\<lambda>s. sessionId s = r_sessionId c
                              \<and> refreshTokenHash s = Sha256 (RefreshJwt c)) (sessions d)"
  shows "\<not> list_ex (\<lambda>s. sessionId s = r_sessionId c
                        \<and> refreshTokenHash s = Sha256 (RefreshJwt c)) (sessions d')"
proof
  assume "list_ex (\<lambda>s. sessionId s = r_sessionId c
                        \<and> refreshTokenHash s = Sha256 (RefreshJwt c)) (sessions d')"
  then obtain s' where s': "s' \<in> set (sessions d')" "sessionId s' = r_sessionId c"
    "refreshTokenHash s' = Sha256 (RefreshJwt c)"
    by (auto simp: list_ex_iff)
  from step obtain ys zs where split: "sessions d' = ys @ zs"
    and old: "list_all2 (session_step now) (sessions d) ys"
    and new: "list_all (\<lambda>s. hashed_at now s \<and> createdAt s = now) zs"
    unfolding store_step_iff by blast
  from s'(1) split consider "s' \<in> set ys" | "s' \<in> set zs" by auto
  then show False
  proof cases
    case 1
    with old obtain s where s: "s \<in> set (sessions d)" "session_step now s s'"
      by (blast dest: list_all2_source)
    from s(2) have "sessionId s = r_sessionId c"
      and "refreshTokenHash s' = refreshTokenHash s \<or> hashed_at now s'"
      using s'(2) by (simp_all add: session_step_def)
    then show False
      using s(1) s'(3) inv hashed_at_other_second[OF _ later, of s']
      by (auto simp: list_ex_iff)
  next
    case 2
    with new have "hashed_at now s'" by (simp add: list_all_iff)
    then show False using s'(3) hashed_at_other_second[OF _ later] by blast
  qed
qed

lemma superseded_run:
  assumes "list_all (\<lambda>(now, q). t1 \<le> now) h" and "r_iat c < t1 div 1000"
    and "\<not> list_ex (\<lambda>s. sessionId s = r_sessionId c
                        \<and> refreshTokenHash s = Sha256 (RefreshJwt c)) (sessions d)"
  shows "\<not> list_ex (\<lambda>s. sessionId s = r_sessionId c
                        \<and> refreshTokenHash s = Sha256 (RefreshJwt c)) (sessions (run e h d))"
  using assms
proof (induction h arbitrary: d)
  case Nil
  then show ?case by simp
next
  case (Cons x h)
  obtain now q where x: "x = (now, q)" by (cases x)
  have "t1 \<le> now" using Cons.prems(1) by (simp add: x)
  then have "t1 div 1000 \<le> now div 1000" by (simp add: zdiv_mono1)
  then have later: "r_iat c < now div 1000" using Cons.prems(2) by simp
  have "\<not> list_ex (\<lambda>s. sessionId s = r_sessionId c
                        \<and> refreshTokenHash s = Sha256 (RefreshJwt c))
           (sessions (snd (handle e now q d)))"
    using store_step_handle later Cons.prems(3) by (rule superseded_store_step)
  then have "\<not> list_ex (\<lambda>s. sessionId s = r_sessionId c
                        \<and> refreshTokenHash s = Sha256 (RefreshJwt c))
           (sessions (run e h (snd (handle e now q d))))"
    using Cons.prems(1,2) by (intro Cons.IH) (simp_all add: x)
  then show ?case by (simp add: x)
qed

lemma generated_differs:
  "r_iat c < now div 1000 \<Longrightarrow> generateRefreshToken e now u i f \<noteq> RefreshJwt c"
  by (cases c) (auto simp: generateRefreshToken_def)

lemma superseded_after_refresh:
  assumes ok: "status (fst (refresh e t1 (Some (RefreshJwt c)) d)) = 200"
    and later: "r_iat c < t1 div 1000"
  shows "\<not> list_ex (\<lambda>s. sessionId s = r_sessionId c
                        \<and> refreshTokenHash s = Sha256 (RefreshJwt c))
           (sessions (snd (refresh e t1 (Some (RefreshJwt c)) d)))"
proof -
  from ok obtain t c' sess usr where
    t: "Some (RefreshJwt c) = Some t" and v: "verify_refresh t1 t = Inr c'"
    and f: "find (\<lambda>s. sessionId s = r_sessionId c' \<and> refreshTokenHash s = Sha256 t
                \<and> isActive s \<and> expiresAt s > t1) (sessions d) = Some sess"
    and "find (\<lambda>u. uid u = userId sess) (users d) = Some usr"
    and r: "refresh e t1 (Some (RefreshJwt c)) d =
       (\<lparr>status = 200,
         body = JObj [Member ''success'' (JBool True),
                      Member ''message'' (JStr ''Tokens refreshed successfully''),
                      Member ''tokens''
                        (tokens_json e
                           (generateAccessToken e t1 (uid usr) (sessionId sess) (username usr) (email usr))
                           (generateRefreshToken e t1 (uid usr) (sessionId sess) (r_tokenFamily c')))]\<rparr>,
        update_session (sessionId sess)
          (\<lambda>s. set_lastAccessedAt t1
                 (s\<lparr>refreshTokenHash :=
                      Sha256 (generateRefreshToken e t1 (uid usr) (sessionId sess) (r_tokenFamily c'))\<rparr>))
          d)"
    by (rule refresh_success)
  from t v have c': "c' = c" by (auto split: if_splits)
  from f have sid: "sessionId sess = r_sessionId c" by (auto simp: find_Some_iff c')
  show ?thesis
    using generated_differs[OF later]
    by (auto simp: r sid sessions_update_session list_ex_iff set_lastAccessedAt_def
        calculateRiskScore_def Let_def)
qed


text \<open>
  C2, as the code has it. Let a refresh succeed in a later clock second than the one the
  presented token was signed in. Then, whatever requests follow, the presented token
  fails every later refresh attempt and the attempt changes nothing: with
  \<open>SESSION_INVALID\<close> while the token is unexpired, since its hash is not the stored hash
  of its session any more, and with \<open>REFRESH_TOKEN_INVALID\<close> once the token has expired.
\<close>

theorem rotated_token_rejected:
  "status (fst (refresh e t1 (Some (RefreshJwt c)) d)) = 200
   \<and> r_iat c < t1 div 1000
   \<and> list_all (\<lambda>(now, q). t1 \<le> now) h \<and> t1 \<le> t2 \<longrightarrow>
     refresh e t2 (Some (RefreshJwt c)) (run e h (snd (refresh e t1 (Some (RefreshJwt c)) d)))
       = (if r_exp c \<le> t2 div 1000
          then failure 401 ''Invalid or expired refresh token'' ''REFRESH_TOKEN_INVALID''
          else failure 401 ''Session not found or expired'' ''SESSION_INVALID'',
          run e h (snd (refresh e t1 (Some (RefreshJwt c)) d)))"
proof (intro impI)
  assume a: "status (fst (refresh e t1 (Some (RefreshJwt c)) d)) = 200
   \<and> r_iat c < t1 div 1000
   \<and> list_all (\<lambda>(now, q). t1 \<le> now) h \<and> t1 \<le> t2"
  let ?d1 = "snd (refresh e t1 (Some (RefreshJwt c)) d)"
  have "\<not> list_ex (\<lambda>s. sessionId s = r_sessionId c
                        \<and> refreshTokenHash s = Sha256 (RefreshJwt c)) (sessions ?d1)"
    using a by (intro superseded_after_refresh) simp_all
  then have gone: "\<not> list_ex (\<lambda>s. sessionId s = r_sessionId c
                        \<and> refreshTokenHash s = Sha256 (RefreshJwt c)) (sessions (run e h ?d1))"
    using a by (intro superseded_run[where ?t1.0 = t1]) simp_all
  show "refresh e t2 (Some (RefreshJwt c)) (run e h ?d1)
       = (if r_exp c \<le> t2 div 1000
          then failure 401 ''Invalid or expired refresh token'' ''REFRESH_TOKEN_INVALID''
          else failure 401 ''Session not found or expired'' ''SESSION_INVALID'',
          run e h ?d1)"
  proof (cases "r_exp c \<le> t2 div 1000")
    case True
    then show ?thesis by (simp add: refresh_def)
  next
    case False
    then have v: "verify_refresh t2 (RefreshJwt c) = Inr c" by simp
    have "\<not> current_token t2 (RefreshJwt c) c (run e h ?d1)"
      using gone by (auto simp: current_token_def list_ex_iff)
    with v False show ?thesis by (simp add: refresh_not_current)
  qed
qed

theorem rotated_token_rejected_witness:
  "status (fst (refresh env0 2000 (Some refresh1) db1)) = 200
   \<and> refresh env0 3000 (Some refresh1)
       (run env0 [(2500, Me (Some access1))] (snd (refresh env0 2000 (Some refresh1) db1)))
     = (failure 401 ''Session not found or expired'' ''SESSION_INVALID'',
        run env0 [(2500, Me (Some access1))] (snd (refresh env0 2000 (Some refresh1) db1)))"
proof -
  let ?c = "\<lparr>r_userId = 1, r_sessionId = ''s1'', r_tokenFamily = ''f1'', r_type = ''refresh'',
             r_iat = 0, r_exp = 604800\<rparr>"
  have ok: "status (fst (refresh env0 2000 (Some (RefreshJwt ?c)) db1)) = 200"
    using alice_rotates(2) by (simp add: refresh1_def)
  have side: "r_iat ?c < 2000 div 1000
      \<and> list_all (\<lambda>(now, q). (2000::int) \<le> now) [(2500, Me (Some access1))]
      \<and> (2000::int) \<le> 3000"
    by simp
  show ?thesis
    using rotated_token_rejected[of env0 2000 ?c db1 "[(2500, Me (Some access1))]" 3000] ok side
    by (simp add: refresh1_def)
qed

text \<open>
  C2 as stated fails twice. A refresh half a second after the registration signs the
  same token again, both carrying \<open>iat = 0\<close>, so the token just presented is still
  accepted at the next attempt. And a rotated token presented after its own expiry is
  turned away with \<open>REFRESH_TOKEN_INVALID\<close>, not \<open>SESSION_INVALID\<close>.
\<close>

theorem previous_token_not_always_session_invalid:
  "status (fst (refresh env0 500 (Some refresh1) db1)) = 200
   \<and> issued_refresh_token (fst (refresh env0 500 (Some refresh1) db1)) = Some refresh1
   \<and> status (fst (refresh env0 600 (Some refresh1) (snd (refresh env0 500 (Some refresh1) db1))))
       = 200
   \<and> status (fst (refresh env0 2000 (Some refresh1) db1)) = 200
   \<and> code (fst (refresh env0 604800000 (Some refresh1) db_rotated))
       = Some (JStr ''REFRESH_TOKEN_INVALID'')"
  unfolding alice_rotates(1)
  by (simp add: model_defs history_defs Let_def)

end
